theory Spec2Isabelle
  imports Complex_Main "HOL-Library.Word" "HOL-Library.AList"
begin

section \<open>JavaScript strings\<close>

text \<open>
  A JavaScript string is a sequence of UTF-16 code units; \<open>length\<close> counts code units.
  String literals of the source are ASCII and are written through \<open>lit\<close>.
\<close>

type_synonym js_string = "16 word list"

definition lit :: "string \<Rightarrow> js_string" where
  "lit s = map of_char s"

text \<open>
  \<open>String.prototype.trim\<close> removes leading and trailing WhiteSpace and LineTerminator
  code points (ECMAScript): TAB, LF, VT, FF, CR, SP, NBSP, U+1680, U+2000..U+200A,
  U+2028, U+2029, U+202F, U+205F, U+3000 and U+FEFF. All of them are single code units.
\<close>

definition isWhiteSpace :: "16 word \<Rightarrow> bool" where
  "isWhiteSpace c \<longleftrightarrow>
     c \<in> {0x0009, 0x000A, 0x000B, 0x000C, 0x000D, 0x0020, 0x00A0, 0x1680,
          0x2028, 0x2029, 0x202F, 0x205F, 0x3000, 0xFEFF}
     \<or> (0x2000 \<le> c \<and> c \<le> 0x200A)"

definition trim :: "js_string \<Rightarrow> js_string" where
  "trim s = rev (dropWhile isWhiteSpace (rev (dropWhile isWhiteSpace s)))"

text \<open>Truthiness of a string value: only the empty string is falsy.\<close>

definition truthy_str :: "js_string \<Rightarrow> bool" where
  "truthy_str s \<longleftrightarrow> s \<noteq> []"

text \<open>
  A property that may be absent (\<open>undefined\<close>) and otherwise holds a string:
  \<open>x || d\<close> yields \<open>d\<close> when \<open>x\<close> is \<open>undefined\<close> or the empty string.
\<close>

definition truthy_opt :: "js_string option \<Rightarrow> bool" where
  "truthy_opt x = (case x of None \<Rightarrow> False | Some s \<Rightarrow> truthy_str s)"

definition or_default :: "js_string option \<Rightarrow> js_string \<Rightarrow> js_string" where
  "or_default x d = (case x of None \<Rightarrow> d | Some s \<Rightarrow> if truthy_str s then s else d)"

section \<open>JSON values\<close>

text \<open>
  The data of a response of the analysis service. \<open>JUndefined\<close> is the value of a
  missing property; it never occurs inside a parsed response. \<open>JObj\<close> lists the
  properties of an object in the order in which JavaScript enumerates them; their names
  are distinct. Numbers are only stored and passed on, never computed with; the two zeros
  of JavaScript are one value here.
\<close>

datatype json =
    JUndefined
  | JNull
  | JBool bool
  | JNum rat
  | JStr js_string
  | JArr "json list"
  | JObj "(js_string \<times> json) list"

fun truthy :: "json \<Rightarrow> bool" where
  "truthy JUndefined = False"
| "truthy JNull = False"
| "truthy (JBool b) = b"
| "truthy (JNum n) = (n \<noteq> 0)"
| "truthy (JStr s) = (s \<noteq> [])"
| "truthy (JArr xs) = True"
| "truthy (JObj kvs) = True"

section \<open>The browser environment and the external service\<close>

record form_data =
  crime_code :: js_string
  jurisdiction :: js_string
  additional_info :: js_string

datatype body =
    VerifyBody js_string
  | LoginBody js_string js_string
  | CaseBody form_data

datatype request = Post string body

text \<open>
  A rejected request: the two properties the handlers read from it,
  \<open>error.response?.data?.error\<close> and \<open>error.response?.data?.message\<close>
  (\<open>None\<close> when the error carries no response, or the response no such property).
\<close>

record http_error =
  data_error :: "js_string option"
  data_message :: "js_string option"

text \<open>
  The data of a response of the authentication endpoints: \<open>response.data.success\<close> as the
  condition tests it, and the properties \<open>token\<close>, \<open>username\<close> and \<open>message\<close>
  (\<open>None\<close> when the response has none).
\<close>

record auth_data =
  success :: bool
  token :: "js_string option"
  username :: "js_string option"
  message :: "js_string option"

text \<open>
  The external service behind \<open>api.post\<close>, one function for each path the program
  posts to. \<open>Inl\<close> is a rejected promise.
\<close>

record server =
  auth_verify :: "js_string \<Rightarrow> http_error + auth_data"
  auth_login :: "js_string \<Rightarrow> js_string \<Rightarrow> http_error + auth_data"
  legal_confirm :: "form_data \<Rightarrow> http_error + json"
  legal_analyze :: "form_data \<Rightarrow> http_error + json"

datatype toast = ToastSuccess js_string | ToastError js_string | ToastInfo js_string

text \<open>
  What the handlers share outside the React state: \<open>localStorage\<close>, the default
  \<open>Authorization\<close> header of the HTTP client, the requests issued so far and the toasts
  shown so far.
\<close>

record env =
  storage :: "js_string \<rightharpoonup> js_string"
  auth_header :: "js_string option"
  http_log :: "request list"
  toasts :: "toast list"

definition post :: "string \<Rightarrow> body \<Rightarrow> env \<Rightarrow> env" where
  "post path b e = e\<lparr>http_log := http_log e @ [Post path b]\<rparr>"

definition show_toast :: "toast \<Rightarrow> env \<Rightarrow> env" where
  "show_toast t e = e\<lparr>toasts := toasts e @ [t]\<rparr>"

section \<open>Dashboard\<close>

text \<open>The \<open>name\<close> attributes of the three inputs of the case-intake form.\<close>

datatype field = Crime_code | Jurisdiction | Additional_info

text \<open>
  The \<open>errors\<close> object: its own properties in insertion order. Assigning a property
  replaces the value in place or appends the key (\<open>AList.update\<close>); \<open>Object.keys\<close> is
  \<open>map fst\<close>; reading a property is \<open>map_of\<close>.
\<close>

type_synonym field_errors = "(field \<times> js_string) list"

record dashboard =
  activeTab :: string
  formData :: form_data
  loading :: bool
  confirmation :: json
  analysis :: json
  errors :: field_errors

definition empty_form :: form_data where
  "empty_form = \<lparr>crime_code = [], jurisdiction = [], additional_info = []\<rparr>"

definition initial_dashboard :: dashboard where
  "initial_dashboard =
     \<lparr>activeTab = ''form'', formData = empty_form, loading = False,
      confirmation = JNull, analysis = JNull, errors = []\<rparr>"

fun set_field :: "field \<Rightarrow> js_string \<Rightarrow> form_data \<Rightarrow> form_data" where
  "set_field Crime_code v fd = fd\<lparr>crime_code := v\<rparr>"
| "set_field Jurisdiction v fd = fd\<lparr>jurisdiction := v\<rparr>"
| "set_field Additional_info v fd = fd\<lparr>additional_info := v\<rparr>"

definition handleInputChange :: "field \<Rightarrow> js_string \<Rightarrow> dashboard \<Rightarrow> dashboard" where
  "handleInputChange name v d =
     (let d1 = d\<lparr>formData := set_field name v (formData d)\<rparr>
      in if truthy_opt (map_of (errors d) name)
         then d1\<lparr>errors := AList.update name [] (errors d)\<rparr>
         else d1)"

definition validateForm :: "dashboard \<Rightarrow> dashboard \<times> bool" where
  "validateForm d =
     (let fd = formData d;
          e0 = [];
          e1 = (if \<not> truthy_str (trim (crime_code fd))
                then AList.update Crime_code (lit ''Crime/Penal Code is required'') e0
                else e0);
          e2 = (if \<not> truthy_str (trim (jurisdiction fd))
                then AList.update Jurisdiction (lit ''Jurisdiction is required'') e1
                else e1);
          newErrors =
               (if truthy_str (additional_info fd) \<and> length (additional_info fd) > 1000
                then AList.update Additional_info
                       (lit ''Additional information must be 1000 characters or less'') e2
                else e2)
      in (d\<lparr>errors := newErrors\<rparr>, length (map fst newErrors) = 0))"

text \<open>
  \<open>handleSubmitForConfirmation\<close> in two parts, split at its \<open>await\<close>: what runs when the
  validated form is submitted, and what runs when the promise settles.
\<close>

definition submit_request :: "env \<times> dashboard \<Rightarrow> env \<times> dashboard" where
  "submit_request c =
     (case c of (e, d) \<Rightarrow>
        (post ''/legal/confirm'' (CaseBody (formData d)) e, d\<lparr>loading := True\<rparr>))"

definition submit_settle :: "http_error + json \<Rightarrow> env \<times> dashboard \<Rightarrow> env \<times> dashboard" where
  "submit_settle r c =
     (case c of (e, d) \<Rightarrow>
        (case r of
           Inr data \<Rightarrow>
             (show_toast (ToastSuccess (lit ''Please review and confirm your information'')) e,
              d\<lparr>confirmation := data, activeTab := ''confirmation'', loading := False\<rparr>)
         | Inl err \<Rightarrow>
             (show_toast (ToastError
                (or_default (data_error err) (lit ''Failed to process request''))) e,
              d\<lparr>loading := False\<rparr>)))"

definition handleSubmitForConfirmation :: "server \<Rightarrow> env \<times> dashboard \<Rightarrow> env \<times> dashboard" where
  "handleSubmitForConfirmation srv c =
     (case c of (e, d) \<Rightarrow>
        (case validateForm d of (d1, ok) \<Rightarrow>
           if \<not> ok then (e, d1)
           else submit_settle (legal_confirm srv (formData d)) (submit_request (e, d1))))"

text \<open>\<open>handleConfirmAndAnalyze\<close>, split at its \<open>await\<close> in the same way.\<close>

definition analyze_request :: "env \<times> dashboard \<Rightarrow> env \<times> dashboard" where
  "analyze_request c =
     (case c of (e, d) \<Rightarrow>
        (post ''/legal/analyze'' (CaseBody (formData d)) e,
         d\<lparr>loading := True, activeTab := ''analyzing''\<rparr>))"

definition analyze_settle :: "http_error + json \<Rightarrow> env \<times> dashboard \<Rightarrow> env \<times> dashboard" where
  "analyze_settle r c =
     (case c of (e, d) \<Rightarrow>
        (case r of
           Inr data \<Rightarrow>
             (show_toast (ToastSuccess (lit ''Analysis completed successfully!'')) e,
              d\<lparr>analysis := data, activeTab := ''results'', loading := False\<rparr>)
         | Inl err \<Rightarrow>
             (show_toast (ToastError (or_default (data_error err) (lit ''Analysis failed''))) e,
              d\<lparr>activeTab := ''confirmation'', loading := False\<rparr>)))"

definition handleConfirmAndAnalyze :: "server \<Rightarrow> env \<times> dashboard \<Rightarrow> env \<times> dashboard" where
  "handleConfirmAndAnalyze srv c =
     (case c of (e, d) \<Rightarrow>
        analyze_settle (legal_analyze srv (formData d)) (analyze_request (e, d)))"

definition resetForm :: "dashboard \<Rightarrow> dashboard" where
  "resetForm d =
     d\<lparr>formData := empty_form, confirmation := JNull, analysis := JNull,
       errors := [], activeTab := ''form''\<rparr>"

section \<open>AuthProvider\<close>

text \<open>The \<open>user\<close> object \<open>{ username }\<close>; \<open>None\<close> below is \<open>null\<close>.\<close>

record user_info =
  user_username :: "js_string option"

text \<open>The state of the provider; \<open>auth_loading\<close> is its \<open>loading\<close>.\<close>

record auth_state =
  user :: "user_info option"
  auth_loading :: bool
  isAuthenticated :: bool

definition initial_auth :: auth_state where
  "initial_auth = \<lparr>user = None, auth_loading = True, isAuthenticated = False\<rparr>"

definition token_key :: js_string where
  "token_key = lit ''precedent_token''"

text \<open>\<open>localStorage.getItem\<close>, \<open>setItem\<close> and \<open>removeItem\<close>; \<open>None\<close> is \<open>null\<close>.\<close>

definition getItem :: "js_string \<Rightarrow> env \<Rightarrow> js_string option" where
  "getItem k e = storage e k"

definition setItem :: "js_string \<Rightarrow> js_string \<Rightarrow> env \<Rightarrow> env" where
  "setItem k v e = e\<lparr>storage := (storage e)(k \<mapsto> v)\<rparr>"

definition removeItem :: "js_string \<Rightarrow> env \<Rightarrow> env" where
  "removeItem k e = e\<lparr>storage := (storage e)(k := None)\<rparr>"

text \<open>The string a property of the response becomes in \<open>setItem\<close> and in a template literal.\<close>

definition to_string :: "js_string option \<Rightarrow> js_string" where
  "to_string x = (case x of None \<Rightarrow> lit ''undefined'' | Some s \<Rightarrow> s)"

definition bearer :: "js_string \<Rightarrow> js_string" where
  "bearer t = lit ''Bearer '' @ t"

definition checkAuthStatus :: "server \<Rightarrow> env \<times> auth_state \<Rightarrow> env \<times> auth_state" where
  "checkAuthStatus srv c =
     (case c of (e, a) \<Rightarrow>
        (case getItem token_key e of
           None \<Rightarrow> (e, a\<lparr>auth_loading := False\<rparr>)
         | Some t \<Rightarrow>
             if \<not> truthy_str t then (e, a\<lparr>auth_loading := False\<rparr>)
             else
               (let e1 = post ''/auth/verify'' (VerifyBody t) e
                in case auth_verify srv t of
                     Inr data \<Rightarrow>
                       if success data
                       then (e1\<lparr>auth_header := Some (bearer t)\<rparr>,
                             a\<lparr>user := Some \<lparr>user_username = username data\<rparr>,
                               isAuthenticated := True, auth_loading := False\<rparr>)
                       else (removeItem token_key e1, a\<lparr>auth_loading := False\<rparr>)
                   | Inl err \<Rightarrow> (removeItem token_key e1, a\<lparr>auth_loading := False\<rparr>))))"

text \<open>The object \<open>login\<close> returns: \<open>{ success }\<close> or \<open>{ success, message }\<close>.\<close>

record login_result =
  result_success :: bool
  result_message :: "js_string option"

definition login ::
  "server \<Rightarrow> js_string \<Rightarrow> js_string \<Rightarrow> env \<times> auth_state \<Rightarrow> (env \<times> auth_state) \<times> login_result"
where
  "login srv uname pw c =
     (case c of (e, a) \<Rightarrow>
        (let e1 = post ''/auth/login'' (LoginBody uname pw) e
         in case auth_login srv uname pw of
              Inr data \<Rightarrow>
                if success data
                then
                  (let e2 = setItem token_key (to_string (token data)) e1;
                       e3 = e2\<lparr>auth_header := Some (bearer (to_string (token data)))\<rparr>;
                       e4 = show_toast
                              (ToastSuccess (lit ''Login successful! Welcome to PRECEDENT.'')) e3
                   in ((e4, a\<lparr>user := Some \<lparr>user_username = username data\<rparr>,
                               isAuthenticated := True, auth_loading := False\<rparr>),
                       \<lparr>result_success = True, result_message = None\<rparr>))
                else
                  ((show_toast (ToastError (or_default (message data) (lit ''Login failed''))) e1,
                    a\<lparr>auth_loading := False\<rparr>),
                   \<lparr>result_success = False, result_message = message data\<rparr>)
            | Inl err \<Rightarrow>
                (let errorMessage =
                       or_default (data_message err) (lit ''Login failed. Please try again.'')
                 in ((show_toast (ToastError errorMessage) e1, a\<lparr>auth_loading := False\<rparr>),
                     \<lparr>result_success = False, result_message = Some errorMessage\<rparr>))))"

definition logout :: "env \<times> auth_state \<Rightarrow> env \<times> auth_state" where
  "logout c =
     (case c of (e, a) \<Rightarrow>
        (show_toast (ToastInfo (lit ''You have been logged out.''))
           ((removeItem token_key e)\<lparr>auth_header := None\<rparr>),
         a\<lparr>user := None, isAuthenticated := False\<rparr>))"

section \<open>LoginPage\<close>

text \<open>
  The form of the login page (\<open>login_username\<close> and \<open>login_password\<close> are its
  \<open>username\<close> and \<open>password\<close>), the \<open>name\<close> attributes of its two inputs, and
  the keys of its \<open>errors\<close> object: the two names and \<open>general\<close>.
\<close>

record login_form =
  login_username :: js_string
  login_password :: js_string

datatype login_input = Username | Password

datatype login_error_key = Field login_input | General

record login_page =
  loginFormData :: login_form
  showPassword :: bool
  loginErrors :: "(login_error_key \<times> js_string) list"

definition initial_login_page :: login_page where
  "initial_login_page =
     \<lparr>loginFormData = \<lparr>login_username = [], login_password = []\<rparr>,
      showPassword = False, loginErrors = []\<rparr>"

fun set_login_field :: "login_input \<Rightarrow> js_string \<Rightarrow> login_form \<Rightarrow> login_form" where
  "set_login_field Username v fd = fd\<lparr>login_username := v\<rparr>"
| "set_login_field Password v fd = fd\<lparr>login_password := v\<rparr>"

definition handleChange :: "login_input \<Rightarrow> js_string \<Rightarrow> login_page \<Rightarrow> login_page" where
  "handleChange name v pg =
     (let pg1 = pg\<lparr>loginFormData := set_login_field name v (loginFormData pg)\<rparr>
      in if truthy_opt (map_of (loginErrors pg) (Field name))
         then pg1\<lparr>loginErrors := AList.update (Field name) [] (loginErrors pg)\<rparr>
         else pg1)"

definition validateForm_login :: "login_page \<Rightarrow> login_page \<times> bool" where
  "validateForm_login pg =
     (let fd = loginFormData pg;
          e0 = [];
          e1 = (if \<not> truthy_str (trim (login_username fd))
                then AList.update (Field Username) (lit ''Username is required'') e0 else e0);
          newErrors =
               (if \<not> truthy_str (trim (login_password fd))
                then AList.update (Field Password) (lit ''Password is required'') e1 else e1)
      in (pg\<lparr>loginErrors := newErrors\<rparr>, length (map fst newErrors) = 0))"

definition handleSubmit ::
  "server \<Rightarrow> (env \<times> auth_state) \<times> login_page \<Rightarrow> (env \<times> auth_state) \<times> login_page"
where
  "handleSubmit srv w =
     (case w of (c, pg) \<Rightarrow>
        (case validateForm_login pg of (pg1, ok) \<Rightarrow>
           if \<not> ok then (c, pg1)
           else
             (case login srv (login_username (loginFormData pg))
                     (login_password (loginFormData pg)) c of
                (c', result) \<Rightarrow>
                  if \<not> result_success result
                  then (c', pg1\<lparr>loginErrors :=
                              [(General, or_default (result_message result)
                                  (lit ''Login failed. Please check your credentials.''))]\<rparr>)
                  else (c', pg1))))"

section \<open>The views\<close>

subsection \<open>The results view\<close>

text \<open>
  \<open>renderResults\<close> builds a tree of elements from the stored \<open>analysis\<close>. Evaluating
  it can raise a \<open>TypeError\<close>: when \<open>map\<close> is called on a value that is not an array,
  when a property of \<open>null\<close> is read, or when \<open>Object.entries\<close> is given \<open>null\<close>.
\<close>

datatype js_error = TypeError

text \<open>
  \<open>Object.entries\<close> of a value other than \<open>null\<close> and \<open>undefined\<close>: the properties
  of an object in their order, the elements of an array and the code units of a string
  under their indices, nothing for a number or a boolean.
\<close>

fun digits :: "nat \<Rightarrow> string" where
  "digits n = (if n < 10 then [char_of (48 + n)] else digits (n div 10) @ [char_of (48 + n mod 10)])"

definition index_key :: "nat \<Rightarrow> js_string" where
  "index_key n = lit (digits n)"

fun entries :: "json \<Rightarrow> (js_string \<times> json) list" where
  "entries (JObj kvs) = kvs"
| "entries (JArr xs) = zip (map index_key [0..<length xs]) xs"
| "entries (JStr s) = zip (map index_key [0..<length s]) (map (\<lambda>c. JStr [c]) s)"
| "entries v = []"

text \<open>
  Reading one of the properties that the view reads, from a value other than \<open>null\<close>
  and \<open>undefined\<close>: only an object can have one of them (none of these names is a
  property of strings, numbers, booleans or arrays). \<open>opt_prop\<close> is \<open>v?.k\<close>.
\<close>

fun get_prop :: "json \<Rightarrow> string \<Rightarrow> json" where
  "get_prop (JObj kvs) k = (case map_of kvs (lit k) of Some v \<Rightarrow> v | None \<Rightarrow> JUndefined)"
| "get_prop v k = JUndefined"

fun nullish :: "json \<Rightarrow> bool" where
  "nullish JUndefined = True"
| "nullish JNull = True"
| "nullish v = False"

definition opt_prop :: "json \<Rightarrow> string \<Rightarrow> json" where
  "opt_prop v k = (if nullish v then JUndefined else get_prop v k)"

text \<open>\<open>typeof v === 'object'\<close>, which holds of \<open>null\<close> too.\<close>

fun typeof_object :: "json \<Rightarrow> bool" where
  "typeof_object JNull = True"
| "typeof_object (JArr xs) = True"
| "typeof_object (JObj kvs) = True"
| "typeof_object v = False"

text \<open>\<open>s.replace('_', ' ')\<close>: the first underscore becomes a space.\<close>

fun replace_underscore :: "js_string \<Rightarrow> js_string" where
  "replace_underscore [] = []"
| "replace_underscore (c # cs) = (if c = 0x5F then 0x20 # cs else c # replace_underscore cs)"

text \<open>
  The tree: an element with its tag (or component) and \<open>className\<close> and its children,
  a text of the source, the value of an expression in braces, and the array that a
  \<open>map\<close> yields. The other attributes (\<open>key\<close>, \<open>size\<close>, \<open>onClick\<close>) are left out.
  How React shows a value is React's: a string or a number as it is, a boolean, \<open>null\<close>
  or \<open>undefined\<close> as nothing.
\<close>

datatype vnode =
    El string string "vnode list"
  | Txt string
  | Val json
  | Arr "vnode list"

text \<open>
  \<open>xs.map(f)\<close> where \<open>f\<close> may raise, and \<open>x?.map(f)\<close>: \<open>undefined\<close> for \<open>null\<close> and
  \<open>undefined\<close>, the mapped array for an array, a \<open>TypeError\<close> for anything else.
\<close>

fun traverse :: "('a \<Rightarrow> js_error + 'b) \<Rightarrow> 'a list \<Rightarrow> js_error + 'b list" where
  "traverse f [] = Inr []"
| "traverse f (x # xs) =
     (case f x of
        Inl e \<Rightarrow> Inl e
      | Inr y \<Rightarrow> (case traverse f xs of Inl e \<Rightarrow> Inl e | Inr ys \<Rightarrow> Inr (y # ys)))"

definition opt_map :: "(json \<Rightarrow> js_error + vnode) \<Rightarrow> json \<Rightarrow> js_error + vnode" where
  "opt_map f x =
     (if nullish x then Inr (Val JUndefined)
      else case x of
             JArr xs \<Rightarrow> (case traverse f xs of Inl e \<Rightarrow> Inl e | Inr ns \<Rightarrow> Inr (Arr ns))
           | _ \<Rightarrow> Inl TypeError)"

text \<open>
  The parts of \<open>renderResults\<close>, from the inside out. \<open>toUpperCase\<close> stands for
  \<open>String.prototype.toUpperCase\<close>. A condition \<open>x && (...)\<close> yields \<open>x\<close> itself when
  \<open>x\<close> is falsy.
\<close>

definition li_item :: "json \<Rightarrow> js_error + vnode" where
  "li_item item = Inr (El ''li'' [] [Val item])"

definition penalty_detail :: "js_string \<times> json \<Rightarrow> vnode" where
  "penalty_detail kv =
     (case kv of (key, v) \<Rightarrow>
        El ''li'' []
          [El ''strong'' [] [Val (JStr (replace_underscore key)), Txt '':''], Txt '' '', Val v])"

definition penalty_type :: "(js_string \<Rightarrow> js_string) \<Rightarrow> js_string \<times> json \<Rightarrow> js_error + vnode" where
  "penalty_type toUpperCase kv =
     (case kv of (type, penalty) \<Rightarrow>
        (let label = El ''strong'' [] [Val (JStr (toUpperCase (replace_underscore type))), Txt '':'']
         in if typeof_object penalty
            then (if nullish penalty then Inl TypeError
                  else Inr (El ''div'' ''penalty-type''
                         [label, El ''ul'' [] [Arr (map penalty_detail (entries penalty))]]))
            else Inr (El ''div'' ''penalty-type'' [label, El ''span'' [] [Val penalty]])))"

definition legal_explanation_content ::
  "(js_string \<Rightarrow> js_string) \<Rightarrow> json \<Rightarrow> js_error + vnode" where
  "legal_explanation_content toUpperCase le =
     (if \<not> truthy le then Inr (Val le)
      else
        (case opt_map li_item (get_prop le ''what_prosecution_must_prove'') of
           Inl e \<Rightarrow> Inl e
         | Inr proofs \<Rightarrow>
             (let penalties = get_prop le ''penalties''
              in case traverse (penalty_type toUpperCase)
                        (entries (if truthy penalties then penalties else JObj [])) of
                   Inl e \<Rightarrow> Inl e
                 | Inr types \<Rightarrow>
                     Inr (El ''Fragment'' []
                       [El ''h4'' [] [Val (get_prop le ''crime_name'')],
                        El ''p'' ''simple-explanation'' [Val (get_prop le ''simple_explanation'')],
                        El ''div'' ''legal-details''
                          [El ''div'' ''detail-section''
                             [El ''h5'' [] [Txt ''What the Prosecution Must Prove:''],
                              El ''ul'' [] [proofs]],
                           El ''div'' ''detail-section''
                             [El ''h5'' [] [Txt ''Potential Penalties:''],
                              El ''div'' ''penalties'' [Arr types]]]]))))"

definition defense_item :: "json \<Rightarrow> js_error + vnode" where
  "defense_item defense =
     (if nullish defense then Inl TypeError
      else Inr (El ''div'' ''defense-item''
             [El ''strong'' [] [Val (get_prop defense ''strategy'')],
              El ''div'' ''defense-stats''
                [El ''span'' [] [Txt ''Success Rate: '', Val (get_prop defense ''success_rate''),
                                 Txt ''%''],
                 El ''span'' [] [Txt ''Frequency: '', Val (get_prop defense ''frequency''),
                                 Txt ''%'']]]))"

definition analytics_content :: "json \<Rightarrow> js_error + vnode" where
  "analytics_content an =
     (if \<not> truthy an then Inr (Val an)
      else
        (case opt_map defense_item (get_prop an ''common_defenses'') of
           Inl e \<Rightarrow> Inl e
         | Inr defenses \<Rightarrow>
             Inr (El ''Fragment'' []
               [El ''div'' ''analytics-stats''
                  [El ''div'' ''stat-item''
                     [El ''span'' ''stat-value''
                        [Val (opt_prop (get_prop an ''jurisdiction_stats'')
                                ''total_cases_last_year'')],
                      El ''span'' ''stat-label'' [Txt ''Cases Last Year'']],
                   El ''div'' ''stat-item''
                     [El ''span'' ''stat-value''
                        [Val (opt_prop (get_prop an ''jurisdiction_stats'') ''conviction_rate''),
                         Txt ''%''],
                      El ''span'' ''stat-label'' [Txt ''Conviction Rate'']],
                   El ''div'' ''stat-item''
                     [El ''span'' ''stat-value''
                        [Val (opt_prop (get_prop an ''success_rates'') ''dismissal''), Txt ''%''],
                      El ''span'' ''stat-label'' [Txt ''Dismissal Rate'']]],
                El ''div'' ''common-defenses''
                  [El ''h5'' [] [Txt ''Common Defense Strategies:''], defenses]])))"

definition case_detail :: "string \<Rightarrow> json \<Rightarrow> vnode" where
  "case_detail label v = El ''p'' [] [El ''strong'' [] [Txt label], Txt '' '', Val v]"

definition case_item :: "json \<Rightarrow> js_error + vnode" where
  "case_item c =
     (if nullish c then Inl TypeError
      else Inr (El ''div'' ''case-item''
             [El ''div'' ''case-header''
                [El ''h5'' [] [Val (get_prop c ''case_name'')],
                 El ''span'' ''relevance-score''
                   [Val (get_prop c ''relevance_score''), Txt ''% relevant'']],
              El ''div'' ''case-details''
                [case_detail ''Key Issue:'' (get_prop c ''key_issue''),
                 case_detail ''Outcome:'' (get_prop c ''outcome''),
                 case_detail ''Summary:'' (get_prop c ''summary''),
                 case_detail ''Legal Principle:'' (get_prop c ''legal_principle''),
                 case_detail ''Citation:'' (get_prop c ''citation'')]]))"

definition precedents_content :: "json \<Rightarrow> js_error + vnode" where
  "precedents_content pr =
     (if \<not> truthy pr then Inr (Val pr)
      else
        (case opt_map case_item (get_prop pr ''cases'') of
           Inl e \<Rightarrow> Inl e
         | Inr cases \<Rightarrow>
             Inr (El ''Fragment'' []
               [El ''p'' ''cases-found''
                  [Val (get_prop pr ''total_cases_found''), Txt '' relevant cases found''],
                El ''div'' ''precedent-cases'' [cases]])))"

definition summary_card :: "json \<Rightarrow> js_error + vnode" where
  "summary_card su =
     (if \<not> truthy su then Inr (Val su)
      else
        (case opt_map li_item (get_prop su ''key_points'') of
           Inl e \<Rightarrow> Inl e
         | Inr points \<Rightarrow>
             (case opt_map li_item (get_prop su ''recommended_actions'') of
                Inl e \<Rightarrow> Inl e
              | Inr actions \<Rightarrow>
                  Inr (El ''div'' ''result-card summary-card''
                    [El ''div'' ''result-card-header''
                       [El ''Lightbulb'' [] [], El ''h3'' [] [Txt ''Executive Summary'']],
                     El ''div'' ''result-card-content''
                       [El ''div'' ''key-points''
                          [El ''h5'' [] [Txt ''Key Points:''], El ''ul'' [] [points]],
                        El ''div'' ''recommended-actions''
                          [El ''h5'' [] [Txt ''Recommended Actions:''],
                           El ''ul'' [] [actions]]]]))))"

definition result_card :: "string \<Rightarrow> string \<Rightarrow> vnode \<Rightarrow> vnode" where
  "result_card icon title content =
     El ''div'' ''result-card''
       [El ''div'' ''result-card-header'' [El icon [] [], El ''h3'' [] [Txt title]],
        El ''div'' ''result-card-content'' [content]]"

definition renderResults :: "(js_string \<Rightarrow> js_string) \<Rightarrow> json \<Rightarrow> js_error + vnode" where
  "renderResults toUpperCase a =
     (if \<not> truthy a then Inr (El ''div'' ''results-section fade-in'' [Val a])
      else
        (case legal_explanation_content toUpperCase (get_prop a ''legal_explanation'') of
           Inl e \<Rightarrow> Inl e
         | Inr legal \<Rightarrow>
        (case analytics_content (get_prop a ''analytics'') of
           Inl e \<Rightarrow> Inl e
         | Inr analytics \<Rightarrow>
        (case precedents_content (get_prop a ''precedents'') of
           Inl e \<Rightarrow> Inl e
         | Inr precedents \<Rightarrow>
        (case summary_card (get_prop a ''summary'') of
           Inl e \<Rightarrow> Inl e
         | Inr summary \<Rightarrow>
             Inr (El ''div'' ''results-section fade-in''
               [El ''Fragment'' []
                  [El ''div'' ''results-header''
                     [El ''CheckCircle'' ''success-icon'' [],
                      El ''h2'' [] [Txt ''Analysis Complete''],
                      El ''p'' [] [Txt ''Comprehensive legal analysis for your case'']],
                   El ''div'' ''results-content''
                     [result_card ''FileText'' ''Legal Decompiler'' legal,
                      result_card ''BarChart3'' ''Analytics Engine'' analytics,
                      result_card ''Search'' ''Precedent Explorer'' precedents,
                      summary,
                      El ''div'' ''results-actions''
                        [El ''button'' ''btn btn-primary'' [Txt ''New Analysis'']]]]]))))))"

text \<open>The values of the expressions in a tree, in document order.\<close>

fun vals :: "vnode \<Rightarrow> json list" where
  "vals (El t c kids) = concat (map vals kids)"
| "vals (Txt s) = []"
| "vals (Val v) = [v]"
| "vals (Arr kids) = concat (map vals kids)"

definition shown :: "js_error + vnode \<Rightarrow> js_error + json list" where
  "shown r = (case r of Inl e \<Rightarrow> Inl e | Inr t \<Rightarrow> Inr (vals t))"

subsection \<open>What React can mount\<close>

text \<open>
  React accepts a string, a number, a boolean, \<open>null\<close>, \<open>undefined\<close> and an array of
  such values as a child, and throws on an object (\<open>Objects are not valid as a React
  child\<close>). A view is on the page when its function returns a tree and every value in
  the tree is such a child; otherwise rendering throws and the page is gone.
\<close>

fun child_ok :: "json \<Rightarrow> bool" where
  "child_ok (JObj kvs) = False"
| "child_ok (JArr xs) = list_all child_ok xs"
| "child_ok v = True"

definition mounts :: "js_error + vnode \<Rightarrow> bool" where
  "mounts r = (case r of Inl e \<Rightarrow> False | Inr t \<Rightarrow> list_all child_ok (vals t))"

subsection \<open>What the results view is to display\<close>

text \<open>
  The values that the results view displays, in document order, field by field:
  the name and the explanation of the crime, each thing to prove, and for each penalty
  its label and either the penalty or, for a penalty with details, the label and the
  value of each detail; the three statistics and, for each defence, its strategy,
  success rate and frequency; the number of cases and the seven fields of each case;
  each key point and each recommended action. A label is the property name with its
  first underscore replaced by a space, in upper case for the kinds of penalty. A part
  whose object is falsy shows that falsy value; a list that is absent shows \<open>undefined\<close>.
\<close>

fun elements :: "json \<Rightarrow> json list" where
  "elements (JArr xs) = xs"
| "elements v = []"

definition each_of :: "json \<Rightarrow> (json \<Rightarrow> json list) \<Rightarrow> json list" where
  "each_of x f = (if nullish x then [JUndefined] else concat (map f (elements x)))"

definition fields_of :: "json \<Rightarrow> string list \<Rightarrow> json list" where
  "fields_of x ks = map (get_prop x) ks"

definition detail_shown :: "js_string \<times> json \<Rightarrow> json list" where
  "detail_shown kv = (case kv of (key, v) \<Rightarrow> [JStr (replace_underscore key), v])"

definition penalty_shown :: "(js_string \<Rightarrow> js_string) \<Rightarrow> js_string \<times> json \<Rightarrow> json list" where
  "penalty_shown toUpperCase kv =
     (case kv of (type, penalty) \<Rightarrow>
        JStr (toUpperCase (replace_underscore type))
        # (if typeof_object penalty then concat (map detail_shown (entries penalty))
           else [penalty]))"

definition legal_shown :: "(js_string \<Rightarrow> js_string) \<Rightarrow> json \<Rightarrow> json list" where
  "legal_shown toUpperCase le =
     (if \<not> truthy le then [le]
      else fields_of le [''crime_name'', ''simple_explanation'']
           @ each_of (get_prop le ''what_prosecution_must_prove'') (\<lambda>item. [item])
           @ concat (map (penalty_shown toUpperCase)
               (entries (if truthy (get_prop le ''penalties'') then get_prop le ''penalties''
                         else JObj []))))"

definition analytics_shown :: "json \<Rightarrow> json list" where
  "analytics_shown an =
     (if \<not> truthy an then [an]
      else [opt_prop (get_prop an ''jurisdiction_stats'') ''total_cases_last_year'',
            opt_prop (get_prop an ''jurisdiction_stats'') ''conviction_rate'',
            opt_prop (get_prop an ''success_rates'') ''dismissal'']
           @ each_of (get_prop an ''common_defenses'')
               (\<lambda>defense. fields_of defense [''strategy'', ''success_rate'', ''frequency'']))"

definition precedents_shown :: "json \<Rightarrow> json list" where
  "precedents_shown pr =
     (if \<not> truthy pr then [pr]
      else get_prop pr ''total_cases_found''
           # each_of (get_prop pr ''cases'')
               (\<lambda>c. fields_of c [''case_name'', ''relevance_score'', ''key_issue'', ''outcome'',
                                  ''summary'', ''legal_principle'', ''citation'']))"

definition summary_shown :: "json \<Rightarrow> json list" where
  "summary_shown su =
     (if \<not> truthy su then [su]
      else each_of (get_prop su ''key_points'') (\<lambda>point. [point])
           @ each_of (get_prop su ''recommended_actions'') (\<lambda>action. [action]))"

definition displayed :: "(js_string \<Rightarrow> js_string) \<Rightarrow> json \<Rightarrow> json list" where
  "displayed toUpperCase a =
     (if \<not> truthy a then [a]
      else legal_shown toUpperCase (get_prop a ''legal_explanation'')
           @ analytics_shown (get_prop a ''analytics'')
           @ precedents_shown (get_prop a ''precedents'')
           @ summary_shown (get_prop a ''summary''))"

text \<open>
  A response is well shaped for the view when every list that the view maps over is
  absent, \<open>null\<close> or an array, no defence, case or penalty is \<open>null\<close>, and no field
  that the view displays holds an object.
\<close>

fun texts_or_absent :: "json \<Rightarrow> bool" where
  "texts_or_absent JUndefined = True"
| "texts_or_absent JNull = True"
| "texts_or_absent (JArr xs) = list_all child_ok xs"
| "texts_or_absent v = False"

fun records_or_absent :: "string list \<Rightarrow> json \<Rightarrow> bool" where
  "records_or_absent ks JUndefined = True"
| "records_or_absent ks JNull = True"
| "records_or_absent ks (JArr xs) =
     list_all (\<lambda>y. \<not> nullish y \<and> list_all child_ok (fields_of y ks)) xs"
| "records_or_absent ks v = False"

definition penalty_ok :: "js_string \<times> json \<Rightarrow> bool" where
  "penalty_ok kv =
     (case kv of (type, penalty) \<Rightarrow>
        penalty \<noteq> JNull
        \<and> (typeof_object penalty \<longrightarrow> list_all (\<lambda>e. child_ok (snd e)) (entries penalty)))"

definition well_shaped :: "json \<Rightarrow> bool" where
  "well_shaped a =
     (let le = get_prop a ''legal_explanation'';
          penalties = get_prop le ''penalties'';
          an = get_prop a ''analytics'';
          pr = get_prop a ''precedents'';
          su = get_prop a ''summary''
      in truthy a \<longrightarrow>
           (truthy le \<longrightarrow>
              list_all child_ok (fields_of le [''crime_name'', ''simple_explanation''])
              \<and> texts_or_absent (get_prop le ''what_prosecution_must_prove'')
              \<and> list_all penalty_ok
                    (entries (if truthy penalties then penalties else JObj [])))
         \<and> (truthy an \<longrightarrow>
              child_ok (opt_prop (get_prop an ''jurisdiction_stats'') ''total_cases_last_year'')
              \<and> child_ok (opt_prop (get_prop an ''jurisdiction_stats'') ''conviction_rate'')
              \<and> child_ok (opt_prop (get_prop an ''success_rates'') ''dismissal'')
              \<and> records_or_absent [''strategy'', ''success_rate'', ''frequency'']
                    (get_prop an ''common_defenses''))
         \<and> (truthy pr \<longrightarrow>
              child_ok (get_prop pr ''total_cases_found'')
              \<and> records_or_absent
                    [''case_name'', ''relevance_score'', ''key_issue'', ''outcome'',
                     ''summary'', ''legal_principle'', ''citation'']
                    (get_prop pr ''cases''))
         \<and> (truthy su \<longrightarrow>
              texts_or_absent (get_prop su ''key_points'')
              \<and> texts_or_absent (get_prop su ''recommended_actions'')))"

subsection \<open>The confirmation view\<close>

text \<open>
  \<open>renderConfirmation\<close>. Its two lists are mapped without \<open>?.\<close>: \<open>x.map(f)\<close> raises a
  \<open>TypeError\<close> unless \<open>x\<close> is an array.
\<close>

definition req_map :: "(json \<Rightarrow> js_error + vnode) \<Rightarrow> json \<Rightarrow> js_error + vnode" where
  "req_map f x =
     (case x of
        JArr xs \<Rightarrow> (case traverse f xs of Inl e \<Rightarrow> Inl e | Inr ns \<Rightarrow> Inr (Arr ns))
      | _ \<Rightarrow> Inl TypeError)"

definition detail_item :: "json \<Rightarrow> js_error + vnode" where
  "detail_item detail = Inr (El ''li'' [] [El ''CheckCircle'' [] [], Val detail])"

definition confirmation_header :: vnode where
  "confirmation_header =
     El ''div'' ''confirmation-header''
       [El ''AlertCircle'' ''confirmation-icon'' [],
        El ''h2'' [] [Txt ''Confirm Your Information''],
        El ''p'' [] [Txt ''Please review the details before proceeding with analysis'']]"

definition confirmation_actions :: "bool \<Rightarrow> vnode" where
  "confirmation_actions busy =
     El ''div'' ''confirmation-actions''
       [El ''button'' ''btn btn-secondary'' [Txt ''Back to Edit''],
        El ''button'' ''btn btn-primary''
          [if busy
           then El ''Fragment'' [] [El ''div'' ''loading-spinner'' [], Txt ''Analyzing...'']
           else Val (JStr (lit ''Proceed with Analysis''))]]"

definition renderConfirmation :: "bool \<Rightarrow> json \<Rightarrow> js_error + vnode" where
  "renderConfirmation busy c =
     (if \<not> truthy c
      then Inr (El ''div'' ''confirmation-section fade-in'' [confirmation_header, Val c])
      else
        (case req_map detail_item (get_prop c ''key_details'') of
           Inl e \<Rightarrow> Inl e
         | Inr details \<Rightarrow>
        (case req_map li_item (get_prop c ''questions'') of
           Inl e \<Rightarrow> Inl e
         | Inr questions \<Rightarrow>
             Inr (El ''div'' ''confirmation-section fade-in''
               [confirmation_header,
                El ''div'' ''confirmation-content''
                  [El ''div'' ''confirmation-summary''
                     [El ''h3'' [] [Txt ''AI Analysis Summary:''],
                      El ''p'' [] [Val (get_prop c ''summary'')]],
                   El ''div'' ''confirmation-details''
                     [El ''h3'' [] [Txt ''Key Details:''], El ''ul'' [] [details]],
                   El ''div'' ''confirmation-questions''
                     [El ''h3'' [] [Txt ''Please Verify:''], El ''ul'' [] [questions]],
                   El ''div'' ''confirmation-next''
                     [El ''h3'' [] [Txt ''Next Steps:''],
                      El ''p'' [] [Val (get_prop c ''next_steps'')]],
                   confirmation_actions busy]]))))"

section \<open>The workflow as a transition system\<close>

text \<open>
  The Dashboard shows the form, the confirmation view, the static analyzing view or the
  results view, by \<open>activeTab\<close>. The form and the analyzing view can always be
  mounted.
\<close>

definition page_renders :: "(js_string \<Rightarrow> js_string) \<Rightarrow> dashboard \<Rightarrow> bool" where
  "page_renders toUpperCase d =
     (if activeTab d = ''confirmation''
      then mounts (renderConfirmation (loading d) (confirmation d))
      else if activeTab d = ''results'' then mounts (renderResults toUpperCase (analysis d))
      else True)"

text \<open>
  One step is one event on a mounted Dashboard: a user event on an element that is on
  the page and not disabled, or the settling of a request that was issued earlier.
  The second component lists the awaits that are suspended.
  The inputs and the submit button are on the page in the \<open>form\<close> tab and disabled
  while \<open>loading\<close>; the two buttons of the \<open>confirmation\<close> tab are on the page when
  \<open>confirmation\<close> is truthy and the confirmation view mounts, and disabled while
  \<open>loading\<close>; the button of the \<open>results\<close> tab is on the page when \<open>analysis\<close> is
  truthy and the results view mounts. When a view does not mount, the page is gone and
  nothing more happens to it.
\<close>

datatype pending = AwaitConfirm | AwaitAnalyze

type_synonym config = "(env \<times> dashboard) \<times> pending list"

inductive dash_step :: "(js_string \<Rightarrow> js_string) \<Rightarrow> config \<Rightarrow> config \<Rightarrow> bool"
  for toUpperCase :: "js_string \<Rightarrow> js_string"
where
  input:
    "activeTab d = ''form'' \<Longrightarrow> \<not> loading d \<Longrightarrow>
     dash_step toUpperCase ((e, d), ps) ((e, handleInputChange name v d), ps)"
| submit_invalid:
    "activeTab d = ''form'' \<Longrightarrow> \<not> loading d \<Longrightarrow> \<not> snd (validateForm d) \<Longrightarrow>
     dash_step toUpperCase ((e, d), ps) ((e, fst (validateForm d)), ps)"
| submit_valid:
    "activeTab d = ''form'' \<Longrightarrow> \<not> loading d \<Longrightarrow> snd (validateForm d) \<Longrightarrow>
     dash_step toUpperCase ((e, d), ps)
       (submit_request (e, fst (validateForm d)), ps @ [AwaitConfirm])"
| confirm_settled:
    "page_renders toUpperCase (snd c) \<Longrightarrow>
     dash_step toUpperCase (c, ps @ AwaitConfirm # qs) (submit_settle r c, ps @ qs)"
| back_to_edit:
    "activeTab d = ''confirmation'' \<Longrightarrow> truthy (confirmation d) \<Longrightarrow> \<not> loading d \<Longrightarrow>
     page_renders toUpperCase d \<Longrightarrow>
     dash_step toUpperCase ((e, d), ps) ((e, d\<lparr>activeTab := ''form''\<rparr>), ps)"
| proceed:
    "activeTab d = ''confirmation'' \<Longrightarrow> truthy (confirmation d) \<Longrightarrow> \<not> loading d \<Longrightarrow>
     page_renders toUpperCase d \<Longrightarrow>
     dash_step toUpperCase ((e, d), ps) (analyze_request (e, d), ps @ [AwaitAnalyze])"
| analyze_settled:
    "page_renders toUpperCase (snd c) \<Longrightarrow>
     dash_step toUpperCase (c, ps @ AwaitAnalyze # qs) (analyze_settle r c, ps @ qs)"
| new_analysis:
    "activeTab d = ''results'' \<Longrightarrow> truthy (analysis d) \<Longrightarrow> page_renders toUpperCase d \<Longrightarrow>
     dash_step toUpperCase ((e, d), ps) ((e, resetForm d), ps)"

inductive dash_reachable :: "(js_string \<Rightarrow> js_string) \<Rightarrow> config \<Rightarrow> bool"
  for toUpperCase :: "js_string \<Rightarrow> js_string"
where
  mount: "dash_reachable toUpperCase ((e, initial_dashboard), [])"
| step:
    "dash_reachable toUpperCase c \<Longrightarrow> dash_step toUpperCase c c' \<Longrightarrow>
     dash_reachable toUpperCase c'"

definition tab_of :: "config \<Rightarrow> string" where
  "tab_of c = activeTab (snd (fst c))"

text \<open>The place of a tab in the order form, confirmation, analyzing, results.\<close>

definition tab_rank :: "string \<Rightarrow> nat" where
  "tab_rank t =
     (if t = ''form'' then 0 else if t = ''confirmation'' then 1
      else if t = ''analyzing'' then 2 else 3)"

text \<open>The pairs of tabs that a step can connect.\<close>

definition tab_moves :: "(string \<times> string) list" where
  "tab_moves =
     [(''form'', ''form''), (''form'', ''confirmation''),
      (''confirmation'', ''form''), (''confirmation'', ''analyzing''),
      (''analyzing'', ''results''), (''analyzing'', ''confirmation''),
      (''results'', ''form'')]"

text \<open>What holds of every reachable configuration, tab by tab.\<close>

definition dash_inv :: "config \<Rightarrow> bool" where
  "dash_inv c =
     (case c of ((e, d), ps) \<Rightarrow>
        (activeTab d = ''form'' \<and> (ps = [] \<and> \<not> loading d \<or> ps = [AwaitConfirm] \<and> loading d))
      \<or> (activeTab d = ''confirmation'' \<and> ps = [] \<and> \<not> loading d)
      \<or> (activeTab d = ''analyzing'' \<and> ps = [AwaitAnalyze] \<and> loading d)
      \<or> (activeTab d = ''results'' \<and> ps = [] \<and> \<not> loading d))"

section \<open>The program as a whole\<close>

text \<open>
  The state of the three components over the shared environment, and the operations
  that the components offer: the three of the provider, the handlers of the login page
  and the handlers of the Dashboard (\<open>BackToEdit\<close> is the inline handler of the
  button of that name, \<open>TogglePassword\<close> the one of the eye button).
\<close>

record app =
  app_env :: env
  app_auth :: auth_state
  app_page :: login_page
  app_dash :: dashboard

datatype operation =
    CheckAuthStatus
  | Login js_string js_string
  | Logout
  | HandleChange login_input js_string
  | TogglePassword
  | HandleSubmit
  | HandleInputChange field js_string
  | HandleSubmitForConfirmation
  | BackToEdit
  | HandleConfirmAndAnalyze
  | ResetForm

fun run :: "server \<Rightarrow> operation \<Rightarrow> app \<Rightarrow> app" where
  "run srv CheckAuthStatus w =
     (case checkAuthStatus srv (app_env w, app_auth w) of
        (e, a) \<Rightarrow> w\<lparr>app_env := e, app_auth := a\<rparr>)"
| "run srv (Login uname pw) w =
     (case login srv uname pw (app_env w, app_auth w) of
        ((e, a), r) \<Rightarrow> w\<lparr>app_env := e, app_auth := a\<rparr>)"
| "run srv Logout w =
     (case logout (app_env w, app_auth w) of
        (e, a) \<Rightarrow> w\<lparr>app_env := e, app_auth := a\<rparr>)"
| "run srv (HandleChange name v) w = w\<lparr>app_page := handleChange name v (app_page w)\<rparr>"
| "run srv TogglePassword w =
     w\<lparr>app_page := (app_page w)\<lparr>showPassword := \<not> showPassword (app_page w)\<rparr>\<rparr>"
| "run srv HandleSubmit w =
     (case handleSubmit srv ((app_env w, app_auth w), app_page w) of
        ((e, a), pg) \<Rightarrow> w\<lparr>app_env := e, app_auth := a, app_page := pg\<rparr>)"
| "run srv (HandleInputChange name v) w =
     w\<lparr>app_dash := handleInputChange name v (app_dash w)\<rparr>"
| "run srv HandleSubmitForConfirmation w =
     (case handleSubmitForConfirmation srv (app_env w, app_dash w) of
        (e, d) \<Rightarrow> w\<lparr>app_env := e, app_dash := d\<rparr>)"
| "run srv BackToEdit w = w\<lparr>app_dash := (app_dash w)\<lparr>activeTab := ''form''\<rparr>\<rparr>"
| "run srv HandleConfirmAndAnalyze w =
     (case handleConfirmAndAnalyze srv (app_env w, app_dash w) of
        (e, d) \<Rightarrow> w\<lparr>app_env := e, app_dash := d\<rparr>)"
| "run srv ResetForm w = w\<lparr>app_dash := resetForm (app_dash w)\<rparr>"

definition set_storage :: "(js_string \<rightharpoonup> js_string) \<Rightarrow> app \<Rightarrow> app" where
  "set_storage st w = w\<lparr>app_env := (app_env w)\<lparr>storage := st\<rparr>\<rparr>"

section \<open>Concrete inputs\<close>

text \<open>
  A confirmation and an analysis that the views can show, a service that accepts every
  request with them, a fresh environment and a filled form.
\<close>

definition demo_confirmation :: json where
  "demo_confirmation =
     JObj [(lit ''summary'', JStr (lit ''DUI in Texas'')),
           (lit ''key_details'', JArr [JStr (lit ''Crime: DUI''), JStr (lit ''Place: Texas'')]),
           (lit ''questions'', JArr [JStr (lit ''Is the offense a first offense?'')]),
           (lit ''next_steps'', JStr (lit ''Proceed to the analysis''))]"

definition demo_analysis :: json where
  "demo_analysis =
     JObj [(lit ''summary'', JObj [(lit ''key_points'', JArr [JStr (lit ''Seek counsel'')])])]"

definition demo_server :: server where
  "demo_server =
     \<lparr>auth_verify = (\<lambda>t. Inr \<lparr>success = True, token = None,
                               username = Some (lit ''onebaldegg''), message = None\<rparr>),
      auth_login = (\<lambda>u p. Inr \<lparr>success = True, token = Some (lit ''t0k3n''),
                                username = Some u, message = None\<rparr>),
      legal_confirm = (\<lambda>fd. Inr demo_confirmation),
      legal_analyze = (\<lambda>fd. Inr demo_analysis)\<rparr>"

text \<open>A service that rejects every request, and one that answers every login with a bare failure.\<close>

definition failing_server :: server where
  "failing_server =
     \<lparr>auth_verify = (\<lambda>t. Inl \<lparr>data_error = None, data_message = None\<rparr>),
      auth_login = (\<lambda>u p. Inl \<lparr>data_error = None, data_message = None\<rparr>),
      legal_confirm = (\<lambda>fd. Inl \<lparr>data_error = None, data_message = None\<rparr>),
      legal_analyze = (\<lambda>fd. Inl \<lparr>data_error = None, data_message = None\<rparr>)\<rparr>"

definition refusing_server :: server where
  "refusing_server =
     demo_server\<lparr>auth_verify := (\<lambda>t. Inr \<lparr>success = False, token = None,
                                             username = None, message = None\<rparr>),
                  auth_login := (\<lambda>u p. Inr \<lparr>success = False, token = None,
                                              username = None, message = None\<rparr>)\<rparr>"

definition empty_env :: env where
  "empty_env = \<lparr>storage = Map.empty, auth_header = None, http_log = [], toasts = []\<rparr>"

definition dui_form :: form_data where
  "dui_form = \<lparr>crime_code = lit ''DUI'', jurisdiction = lit ''Texas'', additional_info = []\<rparr>"

definition d_filled :: dashboard where
  "d_filled = initial_dashboard\<lparr>formData := dui_form\<rparr>"

text \<open>The states of a run through the workflow with \<open>demo_server\<close>.\<close>

definition st_submitted :: "env \<times> dashboard" where
  "st_submitted = submit_request (empty_env, fst (validateForm d_filled))"

definition st_confirmation :: "env \<times> dashboard" where
  "st_confirmation = submit_settle (Inr demo_confirmation) st_submitted"

definition st_analyzing :: "env \<times> dashboard" where
  "st_analyzing = analyze_request st_confirmation"

definition st_results :: "env \<times> dashboard" where
  "st_results = analyze_settle (Inr demo_analysis) st_analyzing"

text \<open>
  Environments with an empty and with a non-empty stored token, the session after a
  successful login, a filled login page, and a state of the program whose storage holds
  a key of another script.
\<close>

definition blank_token_env :: env where
  "blank_token_env = empty_env\<lparr>storage := [token_key \<mapsto> []]\<rparr>"

definition stale_token_env :: env where
  "stale_token_env = empty_env\<lparr>storage := [token_key \<mapsto> lit ''t0k3n'']\<rparr>"

definition st_logged_in :: "env \<times> auth_state" where
  "st_logged_in =
     fst (login demo_server (lit ''onebaldegg'') (lit ''4life'') (empty_env, initial_auth))"

definition demo_login_page :: login_page where
  "demo_login_page =
     initial_login_page\<lparr>loginFormData :=
       \<lparr>login_username = lit ''onebaldegg'', login_password = lit ''wrong''\<rparr>\<rparr>"

definition demo_app :: app where
  "demo_app =
     \<lparr>app_env = empty_env\<lparr>storage := [lit ''theme'' \<mapsto> lit ''dark'']\<rparr>,
      app_auth = initial_auth, app_page = initial_login_page, app_dash = initial_dashboard\<rparr>"


text \<open>
  Upper case on ASCII letters, where it agrees with \<open>toUpperCase\<close>, and a response with
  one penalty and one field that the view does not read.
\<close>

definition ascii_upper :: "js_string \<Rightarrow> js_string" where
  "ascii_upper s = map (\<lambda>c. if 0x61 \<le> c \<and> c \<le> 0x7A then c - 0x20 else c) s"

definition penalty_response :: json where
  "penalty_response =
     JObj [(lit ''legal_explanation'',
              JObj [(lit ''penalties'',
                       JObj [(lit ''jail'', JObj [(lit ''max_days'', JStr (lit ''30''))])])]),
           (lit ''note'', JStr (lit ''x''))]"

text \<open>
  A form whose notes are one code unit too long, a response with every field that the
  view reads, and a response with a \<open>null\<close> penalty.
\<close>

definition long_notes_form :: form_data where
  "long_notes_form = dui_form\<lparr>additional_info := replicate 1001 0x61\<rparr>"

definition full_analysis :: json where
  "full_analysis =
     JObj
      [(lit ''legal_explanation'',
          JObj [(lit ''crime_name'', JStr (lit ''DUI'')),
                (lit ''simple_explanation'', JStr (lit ''Driving while impaired'')),
                (lit ''what_prosecution_must_prove'',
                   JArr [JStr (lit ''Driving''), JStr (lit ''Impairment'')]),
                (lit ''penalties'',
                   JObj [(lit ''first_offense'',
                            JObj [(lit ''jail_time'', JStr (lit ''up to 6 months'')),
                                  (lit ''fine'', JNum 1000)]),
                         (lit ''license'', JStr (lit ''suspended''))])]),
       (lit ''analytics'',
          JObj [(lit ''jurisdiction_stats'',
                   JObj [(lit ''total_cases_last_year'', JNum 1247),
                         (lit ''conviction_rate'', JNum (366 / 5))]),
                (lit ''success_rates'', JObj [(lit ''dismissal'', JNum 12)]),
                (lit ''common_defenses'',
                   JArr [JObj [(lit ''strategy'', JStr (lit ''Challenge the stop'')),
                               (lit ''success_rate'', JNum 23),
                               (lit ''frequency'', JNum 45)]])]),
       (lit ''precedents'',
          JObj [(lit ''total_cases_found'', JNum 23),
                (lit ''cases'',
                   JArr [JObj [(lit ''case_name'', JStr (lit ''State v. Doe'')),
                               (lit ''relevance_score'', JNum 95),
                               (lit ''key_issue'', JStr (lit ''Stop'')),
                               (lit ''outcome'', JStr (lit ''Dismissed'')),
                               (lit ''summary'', JStr (lit ''No cause'')),
                               (lit ''legal_principle'', JStr (lit ''Fourth Amendment'')),
                               (lit ''citation'', JStr (lit ''123 X 456''))]])]),
       (lit ''summary'',
          JObj [(lit ''key_points'', JArr [JStr (lit ''Seek counsel'')]),
                (lit ''recommended_actions'', JArr [JStr (lit ''Request records'')])])]"

definition null_penalty_response :: json where
  "null_penalty_response =
     JObj [(lit ''legal_explanation'', JObj [(lit ''penalties'', JObj [(lit ''fine'', JNull)])])]"

text \<open>A response whose \<open>crime_name\<close> is an object, and a confirmation without lists.\<close>

definition object_name_response :: json where
  "object_name_response =
     JObj [(lit ''legal_explanation'',
              JObj [(lit ''crime_name'', JObj [(lit ''en'', JStr (lit ''DUI''))])])]"

definition bare_confirmation :: json where
  "bare_confirmation = JObj [(lit ''summary'', JStr (lit ''DUI in Texas''))]"

section \<open>Properties of the case-intake form\<close>

lemma trim_empty_iff: "trim s = [] \<longleftrightarrow> (\<forall>c\<in>set s. isWhiteSpace c)"
proof
  assume "trim s = []"
  then have "\<forall>c\<in>set (dropWhile isWhiteSpace s). isWhiteSpace c"
    by (simp add: trim_def)
  then have "dropWhile isWhiteSpace s = []"
    by (metis dropWhile_eq_Nil_conv hd_dropWhile list.set_sel(1))
  then show "\<forall>c\<in>set s. isWhiteSpace c" by simp
next
  assume "\<forall>c\<in>set s. isWhiteSpace c"
  then show "trim s = []" by (auto simp: trim_def dest: set_dropWhileD)
qed

text \<open>
  Claim C1. \<open>validateForm\<close> accepts the form exactly when \<open>crime_code\<close> and
  \<open>jurisdiction\<close> are non-empty after trimming and \<open>additional_info\<close> has at most 1000
  code units. The \<open>errors\<close> it records hold a message for each violated field and for no
  other field, and nothing else of the state changes. (By \<open>trim_empty_iff\<close>, a field is
  empty after trimming exactly when it consists of whitespace only.)
\<close>

theorem validateForm_accepts_iff:
  "snd (validateForm d) =
      (trim (crime_code (formData d)) \<noteq> [] \<and> trim (jurisdiction (formData d)) \<noteq> []
       \<and> length (additional_info (formData d)) \<le> 1000)
   \<and> map_of (errors (fst (validateForm d))) Crime_code =
      (if trim (crime_code (formData d)) = []
       then Some (lit ''Crime/Penal Code is required'') else None)
   \<and> map_of (errors (fst (validateForm d))) Jurisdiction =
      (if trim (jurisdiction (formData d)) = []
       then Some (lit ''Jurisdiction is required'') else None)
   \<and> map_of (errors (fst (validateForm d))) Additional_info =
      (if length (additional_info (formData d)) > 1000
       then Some (lit ''Additional information must be 1000 characters or less'') else None)
   \<and> fst (validateForm d) = d\<lparr>errors := errors (fst (validateForm d))\<rparr>"
  by (auto simp add: validateForm_def Let_def truthy_str_def)

theorem validateForm_accepts_iff_witness:
  "snd (validateForm d_filled)
   \<and> \<not> snd (validateForm (initial_dashboard\<lparr>formData := long_notes_form\<rparr>))
   \<and> map_of (errors (fst (validateForm (initial_dashboard\<lparr>formData := long_notes_form\<rparr>))))
         Additional_info
       = Some (lit ''Additional information must be 1000 characters or less'')
   \<and> map_of (errors (fst (validateForm (initial_dashboard\<lparr>formData := long_notes_form\<rparr>))))
         Crime_code = None"
proof -
  have t: "trim (lit ''DUI'') \<noteq> []" "trim (lit ''Texas'') \<noteq> []"
    by (simp_all add: trim_def lit_def isWhiteSpace_def)
  from t validateForm_accepts_iff [of d_filled]
  have 1: "snd (validateForm d_filled)"
    by (simp add: d_filled_def dui_form_def)
  from t validateForm_accepts_iff [of "initial_dashboard\<lparr>formData := long_notes_form\<rparr>"]
  have 2: "\<not> snd (validateForm (initial_dashboard\<lparr>formData := long_notes_form\<rparr>))"
    "map_of (errors (fst (validateForm (initial_dashboard\<lparr>formData := long_notes_form\<rparr>))))
         Additional_info
       = Some (lit ''Additional information must be 1000 characters or less'')"
    "map_of (errors (fst (validateForm (initial_dashboard\<lparr>formData := long_notes_form\<rparr>))))
         Crime_code = None"
    by (simp_all add: long_notes_form_def dui_form_def)
  from 1 2 show ?thesis by blast
qed

lemma validate_empty: "\<not> snd (validateForm initial_dashboard)"
  by (simp add: validateForm_def empty_form_def initial_dashboard_def Let_def truthy_str_def
      trim_def)

lemma d_filled_valid: "snd (validateForm d_filled)"
  by (simp add: d_filled_def validateForm_def dui_form_def initial_dashboard_def Let_def
      truthy_str_def trim_def lit_def isWhiteSpace_def)

text \<open>A form with 1001 code units of notes is rejected, with the one error.\<close>

lemma validateForm_long_notes:
  "\<not> snd (validateForm (initial_dashboard\<lparr>formData := long_notes_form\<rparr>))
   \<and> errors (fst (validateForm (initial_dashboard\<lparr>formData := long_notes_form\<rparr>))) =
       [(Additional_info, lit ''Additional information must be 1000 characters or less'')]"
  by (simp add: validateForm_def long_notes_form_def dui_form_def initial_dashboard_def Let_def
      truthy_str_def trim_def lit_def isWhiteSpace_def)

text \<open>
  Claim C3. \<open>handleSubmitForConfirmation\<close> validates first. When validation fails it
  returns with the environment as it was, so no request has been issued, and with
  \<open>activeTab\<close> and \<open>confirmation\<close> unchanged. When validation succeeds it issues the one
  request to \<open>/legal/confirm\<close> with the form data; when that request succeeds,
  \<open>confirmation\<close> is the data of the response and \<open>activeTab\<close> is \<open>confirmation\<close>.
\<close>

theorem submit_validates_first:
  "(\<not> snd (validateForm d) \<longrightarrow>
      handleSubmitForConfirmation srv (e, d) = (e, fst (validateForm d))
      \<and> activeTab (fst (validateForm d)) = activeTab d
      \<and> confirmation (fst (validateForm d)) = confirmation d)
   \<and> (snd (validateForm d) \<longrightarrow>
      http_log (fst (handleSubmitForConfirmation srv (e, d))) =
        http_log e @ [Post ''/legal/confirm'' (CaseBody (formData d))])
   \<and> (snd (validateForm d) \<and> legal_confirm srv (formData d) = Inr data \<longrightarrow>
      confirmation (snd (handleSubmitForConfirmation srv (e, d))) = data
      \<and> activeTab (snd (handleSubmitForConfirmation srv (e, d))) = ''confirmation'')"
  by (auto simp add: handleSubmitForConfirmation_def validateForm_def Let_def
        submit_request_def submit_settle_def post_def show_toast_def split: sum.splits)

theorem submit_validates_first_witness:
  "\<not> snd (validateForm initial_dashboard)
   \<and> handleSubmitForConfirmation demo_server (empty_env, initial_dashboard) =
       (empty_env, fst (validateForm initial_dashboard))
   \<and> snd (validateForm d_filled)
   \<and> legal_confirm demo_server (formData d_filled) = Inr demo_confirmation
   \<and> http_log (fst (handleSubmitForConfirmation demo_server (empty_env, d_filled))) =
       [Post ''/legal/confirm'' (CaseBody dui_form)]
   \<and> confirmation (snd (handleSubmitForConfirmation demo_server (empty_env, d_filled))) =
       demo_confirmation
   \<and> activeTab (snd (handleSubmitForConfirmation demo_server (empty_env, d_filled))) =
       ''confirmation''"
  using submit_validates_first [of initial_dashboard demo_server empty_env]
    submit_validates_first [of d_filled demo_server empty_env demo_confirmation]
    validate_empty d_filled_valid
  by (simp add: demo_server_def empty_env_def d_filled_def)

text \<open>
  Claim C10. When the request to \<open>/legal/analyze\<close> fails, \<open>handleConfirmAndAnalyze\<close>
  ends with \<open>activeTab\<close> at \<open>confirmation\<close> and with the form data, the confirmation and
  the stored analysis as they were before.
\<close>

theorem analyze_failure_restores:
  "legal_analyze srv (formData d) = Inl err \<Longrightarrow>
   activeTab (snd (handleConfirmAndAnalyze srv (e, d))) = ''confirmation''
   \<and> formData (snd (handleConfirmAndAnalyze srv (e, d))) = formData d
   \<and> confirmation (snd (handleConfirmAndAnalyze srv (e, d))) = confirmation d
   \<and> analysis (snd (handleConfirmAndAnalyze srv (e, d))) = analysis d"
  by (simp add: handleConfirmAndAnalyze_def analyze_request_def analyze_settle_def)

theorem analyze_failure_restores_witness:
  "legal_analyze failing_server (formData (snd st_confirmation)) =
       Inl \<lparr>data_error = None, data_message = None\<rparr>
   \<and> activeTab (snd (handleConfirmAndAnalyze failing_server st_confirmation)) = ''confirmation''
   \<and> formData (snd (handleConfirmAndAnalyze failing_server st_confirmation)) = dui_form
   \<and> confirmation (snd (handleConfirmAndAnalyze failing_server st_confirmation)) =
       demo_confirmation
   \<and> analysis (snd (handleConfirmAndAnalyze failing_server st_confirmation)) = JNull"
proof -
  have f: "legal_analyze failing_server (formData (snd st_confirmation)) =
      Inl \<lparr>data_error = None, data_message = None\<rparr>"
    by (simp add: failing_server_def)
  have s: "formData (snd st_confirmation) = dui_form
      \<and> confirmation (snd st_confirmation) = demo_confirmation
      \<and> analysis (snd st_confirmation) = JNull"
    by (simp add: st_confirmation_def st_submitted_def submit_settle_def submit_request_def
        validateForm_def Let_def d_filled_def initial_dashboard_def)
  from analyze_failure_restores [OF f, of "fst st_confirmation"] f s
  show ?thesis by simp
qed

section \<open>Properties of the session\<close>

text \<open>
  Claim C4, as the code has it. On startup \<open>checkAuthStatus\<close> authenticates the session
  exactly when a non-empty token is stored under \<open>precedent_token\<close> and the verify
  endpoint reports success; the token then stays in storage. In every other case the
  user stays unauthenticated and \<open>user\<close> stays null; a non-empty stored token is then
  removed (verify reported failure, or the request failed), and with no stored token or
  an empty one nothing is requested and the environment is left as it is.
\<close>

theorem checkAuthStatus_authenticates_iff:
  "isAuthenticated (snd (checkAuthStatus srv (e, initial_auth))) =
     (\<exists>t d. storage e token_key = Some t \<and> t \<noteq> [] \<and> auth_verify srv t = Inr d \<and> success d)
   \<and> (isAuthenticated (snd (checkAuthStatus srv (e, initial_auth))) \<longrightarrow>
        storage (fst (checkAuthStatus srv (e, initial_auth))) = storage e)
   \<and> (\<not> isAuthenticated (snd (checkAuthStatus srv (e, initial_auth))) \<longrightarrow>
        user (snd (checkAuthStatus srv (e, initial_auth))) = None
        \<and> (if truthy_opt (storage e token_key)
           then storage (fst (checkAuthStatus srv (e, initial_auth))) =
                  (storage e)(token_key := None)
           else fst (checkAuthStatus srv (e, initial_auth)) = e))"
  by (auto simp add: checkAuthStatus_def getItem_def removeItem_def post_def initial_auth_def
      truthy_str_def truthy_opt_def Let_def split: option.splits sum.splits)

theorem checkAuthStatus_authenticates_iff_witness:
  "isAuthenticated (snd (checkAuthStatus demo_server (stale_token_env, initial_auth)))
   \<and> storage (fst (checkAuthStatus demo_server (stale_token_env, initial_auth))) token_key = Some (lit ''t0k3n'')
   \<and> \<not> isAuthenticated (snd (checkAuthStatus failing_server (stale_token_env, initial_auth)))
   \<and> truthy_opt (storage stale_token_env token_key)
   \<and> storage (fst (checkAuthStatus failing_server (stale_token_env, initial_auth))) token_key = None"
proof -
  have t: "storage stale_token_env token_key = Some (lit ''t0k3n'')" "lit ''t0k3n'' \<noteq> []"
    by (simp_all add: stale_token_env_def lit_def)
  have 1: "isAuthenticated (snd (checkAuthStatus demo_server (stale_token_env, initial_auth)))"
    using checkAuthStatus_authenticates_iff [of demo_server stale_token_env] t
    by (simp add: demo_server_def)
  have 2: "\<not> isAuthenticated (snd (checkAuthStatus failing_server (stale_token_env, initial_auth)))"
    using checkAuthStatus_authenticates_iff [of failing_server stale_token_env] t
    by (simp add: failing_server_def)
  have 3: "truthy_opt (storage stale_token_env token_key)"
    using t by (simp add: truthy_opt_def truthy_str_def)
  from 1 checkAuthStatus_authenticates_iff [of demo_server stale_token_env] t
  have 4: "storage (fst (checkAuthStatus demo_server (stale_token_env, initial_auth))) token_key = Some (lit ''t0k3n'')"
    by simp
  from 2 3 checkAuthStatus_authenticates_iff [of failing_server stale_token_env]
  have 5: "storage (fst (checkAuthStatus failing_server (stale_token_env, initial_auth))) token_key = None"
    by simp
  from 1 2 3 4 5 show ?thesis by blast
qed

text \<open>
  Claim C4, as it is stated, fails when the stored token is the empty string: the
  condition \<open>if (token)\<close> is false, the session is not authenticated, and the entry
  stays in storage.
\<close>

theorem checkAuthStatus_empty_token_counterexample:
  "storage blank_token_env token_key = Some []
   \<and> \<not> isAuthenticated (snd (checkAuthStatus demo_server (blank_token_env, initial_auth)))
   \<and> storage (fst (checkAuthStatus demo_server (blank_token_env, initial_auth))) token_key = Some []"
  by (simp add: checkAuthStatus_def getItem_def blank_token_env_def truthy_str_def initial_auth_def)

lemma or_default_nonempty: "d \<noteq> [] \<Longrightarrow> or_default x d \<noteq> []"
  by (simp add: or_default_def truthy_str_def split: option.splits)

text \<open>
  Claim C5, as the code has it. \<open>login\<close> returns success exactly when the login
  endpoint reports success; it then stores the token under \<open>precedent_token\<close>, sets the
  user and the authentication flag. Otherwise storage, the \<open>Authorization\<close> header, the
  user and the flag are as before, an error toast with a non-empty text is shown, and the
  result carries the message of the failure response, which is absent when the response
  has none, or after a failed request the message of the error or the default text.
  \<open>handleSubmit\<close> of the login page then records one \<open>general\<close> error: the message of
  the result, or the text \<open>Login failed. Please check your credentials.\<close> when that
  message is absent or empty; it is never empty.
\<close>

theorem login_success_iff:
  "result_success (snd (login srv u p (e, a))) =
     (\<exists>d. auth_login srv u p = Inr d \<and> success d)
   \<and> (\<forall>d. auth_login srv u p = Inr d \<and> success d \<longrightarrow>
        storage (fst (fst (login srv u p (e, a)))) =
          (storage e)(token_key \<mapsto> to_string (token d))
        \<and> user (snd (fst (login srv u p (e, a)))) = Some \<lparr>user_username = username d\<rparr>
        \<and> isAuthenticated (snd (fst (login srv u p (e, a)))))
   \<and> (\<not> result_success (snd (login srv u p (e, a))) \<longrightarrow>
        storage (fst (fst (login srv u p (e, a)))) = storage e
        \<and> auth_header (fst (fst (login srv u p (e, a)))) = auth_header e
        \<and> user (snd (fst (login srv u p (e, a)))) = user a
        \<and> isAuthenticated (snd (fst (login srv u p (e, a)))) = isAuthenticated a
        \<and> result_message (snd (login srv u p (e, a))) =
            (case auth_login srv u p of
               Inr d \<Rightarrow> message d
             | Inl err \<Rightarrow>
                 Some (or_default (data_message err) (lit ''Login failed. Please try again.'')))
        \<and> (\<exists>m. m \<noteq> [] \<and>
              toasts (fst (fst (login srv u p (e, a)))) = toasts e @ [ToastError m]))
   \<and> (snd (validateForm_login pg)
       \<and> \<not> result_success
            (snd (login srv (login_username (loginFormData pg))
                   (login_password (loginFormData pg)) c)) \<longrightarrow>
        loginErrors (snd (handleSubmit srv (c, pg))) =
          [(General,
            or_default
              (result_message
                 (snd (login srv (login_username (loginFormData pg))
                        (login_password (loginFormData pg)) c)))
              (lit ''Login failed. Please check your credentials.''))]
        \<and> or_default
              (result_message
                 (snd (login srv (login_username (loginFormData pg))
                        (login_password (loginFormData pg)) c)))
              (lit ''Login failed. Please check your credentials.'') \<noteq> [])"
proof (intro conjI allI impI)
  show "result_success (snd (login srv u p (e, a))) =
     (\<exists>d. auth_login srv u p = Inr d \<and> success d)"
    by (simp add: login_def Let_def split: sum.splits)
next
  fix d assume "auth_login srv u p = Inr d \<and> success d"
  then show "storage (fst (fst (login srv u p (e, a)))) =
          (storage e)(token_key \<mapsto> to_string (token d))"
    "user (snd (fst (login srv u p (e, a)))) = Some \<lparr>user_username = username d\<rparr>"
    "isAuthenticated (snd (fst (login srv u p (e, a))))"
    by (simp_all add: login_def Let_def setItem_def post_def show_toast_def)
next
  assume f: "\<not> result_success (snd (login srv u p (e, a)))"
  then show "storage (fst (fst (login srv u p (e, a)))) = storage e"
    "auth_header (fst (fst (login srv u p (e, a)))) = auth_header e"
    "user (snd (fst (login srv u p (e, a)))) = user a"
    "isAuthenticated (snd (fst (login srv u p (e, a)))) = isAuthenticated a"
    "result_message (snd (login srv u p (e, a))) =
            (case auth_login srv u p of
               Inr d \<Rightarrow> message d
             | Inl err \<Rightarrow>
                 Some (or_default (data_message err) (lit ''Login failed. Please try again.'')))"
    by (auto simp add: login_def Let_def post_def show_toast_def split: sum.splits if_splits)
  have "lit ''Login failed'' \<noteq> []" "lit ''Login failed. Please try again.'' \<noteq> []"
    by (simp_all add: lit_def)
  then have "or_default x (lit ''Login failed'') \<noteq> []"
    "or_default y (lit ''Login failed. Please try again.'') \<noteq> []" for x y
    by (simp_all add: or_default_nonempty)
  with f show "\<exists>m. m \<noteq> [] \<and>
              toasts (fst (fst (login srv u p (e, a)))) = toasts e @ [ToastError m]"
    by (auto simp add: login_def Let_def post_def show_toast_def split: sum.splits if_splits)
next
  assume h: "snd (validateForm_login pg)
       \<and> \<not> result_success
            (snd (login srv (login_username (loginFormData pg))
                   (login_password (loginFormData pg)) c))"
  have "lit ''Login failed. Please check your credentials.'' \<noteq> []"
    by (simp add: lit_def)
  then have ne: "or_default x (lit ''Login failed. Please check your credentials.'') \<noteq> []" for x
    by (simp add: or_default_nonempty)
  obtain pg1 ok where v: "validateForm_login pg = (pg1, ok)" by (cases "validateForm_login pg")
  obtain c' r where l: "login srv (login_username (loginFormData pg))
      (login_password (loginFormData pg)) c = (c', r)"
    by (cases "login srv (login_username (loginFormData pg)) (login_password (loginFormData pg)) c")
  from h v l have "ok" "\<not> result_success r" by simp_all
  with v l show "loginErrors (snd (handleSubmit srv (c, pg))) =
          [(General,
            or_default
              (result_message
                 (snd (login srv (login_username (loginFormData pg))
                        (login_password (loginFormData pg)) c)))
              (lit ''Login failed. Please check your credentials.''))]"
    by (simp add: handleSubmit_def)
  from ne show "or_default
              (result_message
                 (snd (login srv (login_username (loginFormData pg))
                        (login_password (loginFormData pg)) c)))
              (lit ''Login failed. Please check your credentials.'') \<noteq> []"
    by blast
qed

lemma demo_login_page_valid: "snd (validateForm_login demo_login_page)"
  by (simp add: validateForm_login_def demo_login_page_def initial_login_page_def Let_def
      truthy_str_def trim_def lit_def isWhiteSpace_def)

theorem login_success_iff_witness:
  "result_success
     (snd (login demo_server (lit ''onebaldegg'') (lit ''4life'') (empty_env, initial_auth)))
   \<and> storage (fst (fst (login demo_server (lit ''onebaldegg'') (lit ''4life'')
        (empty_env, initial_auth)))) token_key = Some (lit ''t0k3n'')
   \<and> isAuthenticated (snd (fst (login demo_server (lit ''onebaldegg'') (lit ''4life'')
        (empty_env, initial_auth))))
   \<and> \<not> result_success
        (snd (login failing_server (lit ''onebaldegg'') (lit ''wrong'') (empty_env, initial_auth)))
   \<and> storage (fst (fst (login failing_server (lit ''onebaldegg'') (lit ''wrong'')
        (empty_env, initial_auth)))) = Map.empty
   \<and> \<not> isAuthenticated (snd (fst (login failing_server (lit ''onebaldegg'') (lit ''wrong'')
        (empty_env, initial_auth))))
   \<and> result_message
        (snd (login failing_server (lit ''onebaldegg'') (lit ''wrong'') (empty_env, initial_auth)))
       = Some (lit ''Login failed. Please try again.'')
   \<and> snd (validateForm_login demo_login_page)
   \<and> loginErrors (snd (handleSubmit refusing_server ((empty_env, initial_auth), demo_login_page)))
       = [(General, lit ''Login failed. Please check your credentials.'')]"
proof -
  let ?u = "lit ''onebaldegg''"
  have ok: "auth_login demo_server ?u (lit ''4life'') =
      Inr \<lparr>success = True, token = Some (lit ''t0k3n''), username = Some ?u, message = None\<rparr>"
    by (simp add: demo_server_def)
  have bad: "auth_login failing_server ?u (lit ''wrong'') =
      Inl \<lparr>data_error = None, data_message = None\<rparr>"
    by (simp add: failing_server_def)
  have ref: "auth_login refusing_server ?u (lit ''wrong'') =
      Inr \<lparr>success = False, token = None, username = None, message = None\<rparr>"
    by (simp add: refusing_server_def demo_server_def)
  note a = login_success_iff [of demo_server ?u "lit ''4life''" empty_env initial_auth]
  note b = login_success_iff [of failing_server ?u "lit ''wrong''" empty_env initial_auth]
  note c = login_success_iff [of refusing_server ?u "lit ''wrong''" empty_env initial_auth
      demo_login_page "(empty_env, initial_auth)"]
  have 1: "result_success (snd (login demo_server ?u (lit ''4life'') (empty_env, initial_auth)))"
    using a ok by simp
  have 2: "storage (fst (fst (login demo_server ?u (lit ''4life'') (empty_env, initial_auth))))
      token_key = Some (lit ''t0k3n'')"
    "isAuthenticated (snd (fst (login demo_server ?u (lit ''4life'') (empty_env, initial_auth))))"
    using a ok by (simp_all add: to_string_def)
  have 3: "\<not> result_success
      (snd (login failing_server ?u (lit ''wrong'') (empty_env, initial_auth)))"
    using b bad by simp
  have 4: "storage (fst (fst (login failing_server ?u (lit ''wrong'') (empty_env, initial_auth))))
      = Map.empty"
    "\<not> isAuthenticated (snd (fst (login failing_server ?u (lit ''wrong'')
        (empty_env, initial_auth))))"
    "result_message
        (snd (login failing_server ?u (lit ''wrong'') (empty_env, initial_auth)))
       = Some (lit ''Login failed. Please try again.'')"
    using b 3 bad by (simp_all add: empty_env_def initial_auth_def or_default_def)
  have 5: "\<not> result_success
      (snd (login refusing_server ?u (lit ''wrong'') (empty_env, initial_auth)))"
    using c ref by simp
  have m: "result_message
      (snd (login refusing_server ?u (lit ''wrong'') (empty_env, initial_auth))) = None"
    using c 5 ref by simp
  have 6: "loginErrors
      (snd (handleSubmit refusing_server ((empty_env, initial_auth), demo_login_page)))
        = [(General, lit ''Login failed. Please check your credentials.'')]"
    using c 5 m demo_login_page_valid
    by (simp add: demo_login_page_def initial_login_page_def or_default_def)
  from 1 2 3 4 6 demo_login_page_valid show ?thesis by blast
qed

text \<open>
  Claim C5, as it is stated, fails for a failure response without a \<open>message\<close>:
  \<open>login\<close> returns \<open>{ success: false, message: undefined }\<close>.
\<close>

theorem login_no_message_counterexample:
  "\<not> result_success
       (snd (login refusing_server (lit ''onebaldegg'') (lit ''wrong'') (empty_env, initial_auth)))
   \<and> result_message
       (snd (login refusing_server (lit ''onebaldegg'') (lit ''wrong'') (empty_env, initial_auth)))
     = None"
  by (simp add: login_def refusing_server_def demo_server_def Let_def)

text \<open>
  Claim C6, as the code has it. \<open>logout\<close> is local: it removes the stored token,
  deletes the default \<open>Authorization\<close> header, shows a toast, clears the user and the
  authentication flag, and issues no request.
\<close>

theorem logout_local:
  "fst (logout (e, a)) =
     e\<lparr>storage := (storage e)(token_key := None), auth_header := None,
       toasts := toasts e @ [ToastInfo (lit ''You have been logged out.'')]\<rparr>
   \<and> http_log (fst (logout (e, a))) = http_log e
   \<and> snd (logout (e, a)) = a\<lparr>user := None, isAuthenticated := False\<rparr>"
  by (simp add: logout_def removeItem_def show_toast_def)

text \<open>
  Claim C6, as it is stated, fails: after a login and a logout the only request that
  has been issued is the one of the login.
\<close>

theorem logout_no_request_counterexample:
  "http_log (fst st_logged_in) = [Post ''/auth/login'' (LoginBody (lit ''onebaldegg'') (lit ''4life''))]
   \<and> isAuthenticated (snd st_logged_in)
   \<and> http_log (fst (logout st_logged_in)) = [Post ''/auth/login'' (LoginBody (lit ''onebaldegg'') (lit ''4life''))]
   \<and> \<not> isAuthenticated (snd (logout st_logged_in))"
  by (simp add: st_logged_in_def login_def logout_def demo_server_def empty_env_def post_def
      show_toast_def setItem_def removeItem_def Let_def initial_auth_def)

section \<open>Properties of client storage\<close>

lemma checkAuthStatus_frame:
  "k \<noteq> token_key \<Longrightarrow> storage (fst (checkAuthStatus srv (e, a))) k = storage e k"
  by (simp add: checkAuthStatus_def getItem_def removeItem_def post_def Let_def
      split: option.splits sum.splits)

lemma login_frame:
  "k \<noteq> token_key \<Longrightarrow> storage (fst (fst (login srv u p (e, a)))) k = storage e k"
  by (simp add: login_def setItem_def post_def show_toast_def Let_def split: sum.splits)

lemma logout_frame:
  "k \<noteq> token_key \<Longrightarrow> storage (fst (logout (e, a))) k = storage e k"
  by (simp add: logout_def removeItem_def show_toast_def)

lemma handleSubmitForConfirmation_frame:
  "storage (fst (handleSubmitForConfirmation srv (e, d))) = storage e"
  by (simp add: handleSubmitForConfirmation_def submit_request_def submit_settle_def post_def
      show_toast_def split: prod.splits sum.splits)

lemma handleConfirmAndAnalyze_frame:
  "storage (fst (handleConfirmAndAnalyze srv (e, d))) = storage e"
  by (simp add: handleConfirmAndAnalyze_def analyze_request_def analyze_settle_def post_def
      show_toast_def split: prod.splits sum.splits)

lemma handleSubmit_frame:
  "k \<noteq> token_key \<Longrightarrow> storage (fst (fst (handleSubmit srv ((e, a), pg)))) k = storage e k"
proof -
  assume k: "k \<noteq> token_key"
  obtain pg1 ok where v: "validateForm_login pg = (pg1, ok)" by (cases "validateForm_login pg")
  obtain c' r where l: "login srv (login_username (loginFormData pg))
      (login_password (loginFormData pg)) (e, a) = (c', r)"
    by (cases "login srv (login_username (loginFormData pg)) (login_password (loginFormData pg)) (e, a)")
  show ?thesis
  proof (cases ok)
    case False
    with v show ?thesis by (simp add: handleSubmit_def)
  next
    case True
    with v l have "fst (handleSubmit srv ((e, a), pg)) = c'"
      by (simp add: handleSubmit_def)
    moreover from l have "c' = fst (login srv (login_username (loginFormData pg))
      (login_password (loginFormData pg)) (e, a))" by simp
    ultimately show ?thesis using login_frame [OF k] by simp
  qed
qed

lemma run_frame:
  assumes k: "k \<noteq> token_key"
  shows "storage (app_env (run srv op w)) k = storage (app_env w) k"
proof (cases op)
  case CheckAuthStatus
  then show ?thesis
    using checkAuthStatus_frame [OF k, of srv "app_env w" "app_auth w"]
    by (simp add: case_prod_beta)
next
  case (Login u p)
  then show ?thesis
    using login_frame [OF k, of srv u p "app_env w" "app_auth w"]
    by (simp add: case_prod_beta)
next
  case Logout
  then show ?thesis
    using logout_frame [OF k, of "app_env w" "app_auth w"]
    by (simp add: case_prod_beta)
next
  case HandleSubmit
  then show ?thesis
    using handleSubmit_frame [OF k, of srv "app_env w" "app_auth w" "app_page w"]
    by (simp add: case_prod_beta)
next
  case HandleSubmitForConfirmation
  then show ?thesis
    using handleSubmitForConfirmation_frame [of srv "app_env w" "app_dash w"]
    by (simp add: case_prod_beta)
next
  case HandleConfirmAndAnalyze
  then show ?thesis
    using handleConfirmAndAnalyze_frame [of srv "app_env w" "app_dash w"]
    by (simp add: case_prod_beta)
qed simp_all

lemma checkAuthStatus_reads:
  "st1 token_key = st2 token_key \<Longrightarrow>
   (fst (checkAuthStatus srv (e\<lparr>storage := st1\<rparr>, a)))\<lparr>storage := Map.empty\<rparr> =
   (fst (checkAuthStatus srv (e\<lparr>storage := st2\<rparr>, a)))\<lparr>storage := Map.empty\<rparr>
   \<and> snd (checkAuthStatus srv (e\<lparr>storage := st1\<rparr>, a)) =
     snd (checkAuthStatus srv (e\<lparr>storage := st2\<rparr>, a))
   \<and> storage (fst (checkAuthStatus srv (e\<lparr>storage := st1\<rparr>, a))) token_key =
     storage (fst (checkAuthStatus srv (e\<lparr>storage := st2\<rparr>, a))) token_key"
  by (simp add: checkAuthStatus_def getItem_def removeItem_def post_def Let_def
      split: option.splits sum.splits)

lemma login_reads:
  "(fst (fst (login srv u p (e\<lparr>storage := st1\<rparr>, a))))\<lparr>storage := Map.empty\<rparr> =
   (fst (fst (login srv u p (e\<lparr>storage := st2\<rparr>, a))))\<lparr>storage := Map.empty\<rparr>
   \<and> snd (fst (login srv u p (e\<lparr>storage := st1\<rparr>, a))) =
     snd (fst (login srv u p (e\<lparr>storage := st2\<rparr>, a)))
   \<and> snd (login srv u p (e\<lparr>storage := st1\<rparr>, a)) = snd (login srv u p (e\<lparr>storage := st2\<rparr>, a))
   \<and> (st1 token_key = st2 token_key \<longrightarrow>
      storage (fst (fst (login srv u p (e\<lparr>storage := st1\<rparr>, a)))) token_key =
      storage (fst (fst (login srv u p (e\<lparr>storage := st2\<rparr>, a)))) token_key)"
  by (simp add: login_def setItem_def post_def show_toast_def Let_def split: sum.splits)

lemma logout_reads:
  "(fst (logout (e\<lparr>storage := st1\<rparr>, a)))\<lparr>storage := Map.empty\<rparr> =
   (fst (logout (e\<lparr>storage := st2\<rparr>, a)))\<lparr>storage := Map.empty\<rparr>
   \<and> snd (logout (e\<lparr>storage := st1\<rparr>, a)) = snd (logout (e\<lparr>storage := st2\<rparr>, a))
   \<and> storage (fst (logout (e\<lparr>storage := st1\<rparr>, a))) token_key =
     storage (fst (logout (e\<lparr>storage := st2\<rparr>, a))) token_key"
  by (simp add: logout_def removeItem_def show_toast_def)

lemma handleSubmitForConfirmation_reads:
  "(fst (handleSubmitForConfirmation srv (e\<lparr>storage := st1\<rparr>, d)))\<lparr>storage := Map.empty\<rparr> =
   (fst (handleSubmitForConfirmation srv (e\<lparr>storage := st2\<rparr>, d)))\<lparr>storage := Map.empty\<rparr>
   \<and> snd (handleSubmitForConfirmation srv (e\<lparr>storage := st1\<rparr>, d)) =
     snd (handleSubmitForConfirmation srv (e\<lparr>storage := st2\<rparr>, d))"
  by (simp add: handleSubmitForConfirmation_def submit_request_def submit_settle_def post_def
      show_toast_def split: prod.splits sum.splits)

lemma handleConfirmAndAnalyze_reads:
  "(fst (handleConfirmAndAnalyze srv (e\<lparr>storage := st1\<rparr>, d)))\<lparr>storage := Map.empty\<rparr> =
   (fst (handleConfirmAndAnalyze srv (e\<lparr>storage := st2\<rparr>, d)))\<lparr>storage := Map.empty\<rparr>
   \<and> snd (handleConfirmAndAnalyze srv (e\<lparr>storage := st1\<rparr>, d)) =
     snd (handleConfirmAndAnalyze srv (e\<lparr>storage := st2\<rparr>, d))"
  by (simp add: handleConfirmAndAnalyze_def analyze_request_def analyze_settle_def post_def
      show_toast_def split: prod.splits sum.splits)

lemma handleSubmit_unfold:
  "handleSubmit srv (c, pg) =
     (if \<not> snd (validateForm_login pg) then (c, fst (validateForm_login pg))
      else (fst (login srv (login_username (loginFormData pg)) (login_password (loginFormData pg)) c),
            if \<not> result_success (snd (login srv (login_username (loginFormData pg))
                    (login_password (loginFormData pg)) c))
            then (fst (validateForm_login pg))\<lparr>loginErrors :=
                   [(General, or_default (result_message (snd (login srv
                        (login_username (loginFormData pg))
                        (login_password (loginFormData pg)) c)))
                      (lit ''Login failed. Please check your credentials.''))]\<rparr>
            else fst (validateForm_login pg)))"
  by (simp add: handleSubmit_def case_prod_beta)

lemma handleSubmit_reads:
  "(fst (fst (handleSubmit srv ((e\<lparr>storage := st1\<rparr>, a), pg))))\<lparr>storage := Map.empty\<rparr> =
   (fst (fst (handleSubmit srv ((e\<lparr>storage := st2\<rparr>, a), pg))))\<lparr>storage := Map.empty\<rparr>
   \<and> snd (fst (handleSubmit srv ((e\<lparr>storage := st1\<rparr>, a), pg))) =
     snd (fst (handleSubmit srv ((e\<lparr>storage := st2\<rparr>, a), pg)))
   \<and> snd (handleSubmit srv ((e\<lparr>storage := st1\<rparr>, a), pg)) =
     snd (handleSubmit srv ((e\<lparr>storage := st2\<rparr>, a), pg))
   \<and> (st1 token_key = st2 token_key \<longrightarrow>
      storage (fst (fst (handleSubmit srv ((e\<lparr>storage := st1\<rparr>, a), pg)))) token_key =
      storage (fst (fst (handleSubmit srv ((e\<lparr>storage := st2\<rparr>, a), pg)))) token_key)"
  using login_reads [where srv = srv and u = "login_username (loginFormData pg)"
      and p = "login_password (loginFormData pg)" and e = e and a = a and ?st1.0 = st1
      and ?st2.0 = st2]
  by (simp add: handleSubmit_unfold)

lemma app_eqI:
  "app_env w = app_env w' \<Longrightarrow> app_auth w = app_auth w' \<Longrightarrow> app_page w = app_page w' \<Longrightarrow>
   app_dash w = app_dash w' \<Longrightarrow> app.more w = app.more w' \<Longrightarrow> w = w'"
  by simp

lemma run_reads:
  assumes t: "st1 token_key = st2 token_key"
  shows "set_storage Map.empty (run srv op (set_storage st1 w)) =
         set_storage Map.empty (run srv op (set_storage st2 w))
     \<and> storage (app_env (run srv op (set_storage st1 w))) token_key =
       storage (app_env (run srv op (set_storage st2 w))) token_key"
proof (cases op)
  case CheckAuthStatus
  then show ?thesis
    using checkAuthStatus_reads [where srv = srv and e = "app_env w" and a = "app_auth w"
        and ?st1.0 = st1 and ?st2.0 = st2] t
    by (simp add: set_storage_def case_prod_beta)
next
  case (Login u p)
  then show ?thesis
    using login_reads [where srv = srv and u = u and p = p and e = "app_env w"
        and a = "app_auth w" and ?st1.0 = st1 and ?st2.0 = st2] t
    by (simp add: set_storage_def case_prod_beta)
next
  case Logout
  then show ?thesis
    using logout_reads [where e = "app_env w" and a = "app_auth w" and ?st1.0 = st1
        and ?st2.0 = st2]
    by (simp add: set_storage_def case_prod_beta)
next
  case HandleSubmit
  then show ?thesis
    using handleSubmit_reads [where srv = srv and e = "app_env w" and a = "app_auth w"
        and pg = "app_page w" and ?st1.0 = st1 and ?st2.0 = st2] t
    by (simp add: set_storage_def case_prod_beta)
next
  case HandleSubmitForConfirmation
  then show ?thesis
    using handleSubmitForConfirmation_reads [where srv = srv and e = "app_env w"
        and d = "app_dash w" and ?st1.0 = st1 and ?st2.0 = st2]
      handleSubmitForConfirmation_frame [of srv "(app_env w)\<lparr>storage := st1\<rparr>" "app_dash w"]
      handleSubmitForConfirmation_frame [of srv "(app_env w)\<lparr>storage := st2\<rparr>" "app_dash w"] t
    by (simp add: set_storage_def case_prod_beta)
next
  case HandleConfirmAndAnalyze
  then show ?thesis
    using handleConfirmAndAnalyze_reads [where srv = srv and e = "app_env w"
        and d = "app_dash w" and ?st1.0 = st1 and ?st2.0 = st2]
      handleConfirmAndAnalyze_frame [of srv "(app_env w)\<lparr>storage := st1\<rparr>" "app_dash w"]
      handleConfirmAndAnalyze_frame [of srv "(app_env w)\<lparr>storage := st2\<rparr>" "app_dash w"] t
    by (simp add: set_storage_def case_prod_beta)
qed (simp_all add: set_storage_def t)

text \<open>
  Claim C7. No operation of the program changes client storage at a key other than
  \<open>precedent_token\<close>, so no operation adds an entry other than that one; and no
  operation reads storage at another key: two runs from states that differ only in
  storage, and agree at \<open>precedent_token\<close>, end in states that differ only in storage
  and agree at \<open>precedent_token\<close>.
\<close>

theorem storage_only_token_key:
  "(\<forall>k. k \<noteq> token_key \<longrightarrow> storage (app_env (run srv op w)) k = storage (app_env w) k)
   \<and> dom (storage (app_env (run srv op w))) \<subseteq> insert token_key (dom (storage (app_env w)))
   \<and> (st1 token_key = st2 token_key \<longrightarrow>
        set_storage Map.empty (run srv op (set_storage st1 w)) =
        set_storage Map.empty (run srv op (set_storage st2 w))
        \<and> storage (app_env (run srv op (set_storage st1 w))) token_key =
          storage (app_env (run srv op (set_storage st2 w))) token_key)"
proof (intro conjI allI impI)
  fix k assume "k \<noteq> token_key"
  then show "storage (app_env (run srv op w)) k = storage (app_env w) k"
    by (rule run_frame)
next
  show "dom (storage (app_env (run srv op w))) \<subseteq> insert token_key (dom (storage (app_env w)))"
  proof
    fix k assume k: "k \<in> dom (storage (app_env (run srv op w)))"
    show "k \<in> insert token_key (dom (storage (app_env w)))"
    proof (cases "k = token_key")
      case True
      then show ?thesis by simp
    next
      case False
      then have "storage (app_env (run srv op w)) k = storage (app_env w) k"
        by (rule run_frame)
      with k show ?thesis by (simp add: dom_def)
    qed
  qed
next
  assume t: "st1 token_key = st2 token_key"
  from t run_reads [where ?st1.0 = st1 and ?st2.0 = st2 and srv = srv and op = op and w = w]
  show "set_storage Map.empty (run srv op (set_storage st1 w)) =
        set_storage Map.empty (run srv op (set_storage st2 w))"
    "storage (app_env (run srv op (set_storage st1 w))) token_key =
     storage (app_env (run srv op (set_storage st2 w))) token_key"
    by simp_all
qed

theorem storage_only_token_key_witness:
  "lit ''theme'' \<noteq> token_key
   \<and> storage (app_env (run demo_server (Login (lit ''onebaldegg'') (lit ''4life'')) demo_app))
        (lit ''theme'') = Some (lit ''dark'')
   \<and> Map.empty token_key = [lit ''theme'' \<mapsto> lit ''dark''] token_key
   \<and> set_storage Map.empty (run demo_server CheckAuthStatus (set_storage Map.empty demo_app)) =
     set_storage Map.empty
       (run demo_server CheckAuthStatus (set_storage [lit ''theme'' \<mapsto> lit ''dark''] demo_app))"
proof -
  have k: "lit ''theme'' \<noteq> token_key"
    by (simp add: lit_def token_key_def)
  have 1: "storage (app_env (run demo_server (Login (lit ''onebaldegg'') (lit ''4life'')) demo_app))
        (lit ''theme'') = Some (lit ''dark'')"
    using storage_only_token_key [where srv = demo_server
        and op = "Login (lit ''onebaldegg'') (lit ''4life'')" and w = demo_app] k
    by (simp add: demo_app_def)
  have t: "Map.empty token_key = [lit ''theme'' \<mapsto> lit ''dark''] token_key"
    using k by simp
  have 2: "set_storage Map.empty (run demo_server CheckAuthStatus (set_storage Map.empty demo_app)) =
     set_storage Map.empty
       (run demo_server CheckAuthStatus (set_storage [lit ''theme'' \<mapsto> lit ''dark''] demo_app))"
    using storage_only_token_key [where srv = demo_server and op = CheckAuthStatus
        and w = demo_app and ?st1.0 = Map.empty and ?st2.0 = "[lit ''theme'' \<mapsto> lit ''dark'']"] t
    by blast
  from k 1 t 2 show ?thesis by blast
qed

section \<open>Properties of the results view\<close>

subsection \<open>The values in the tree\<close>

lemma traverse_Inr:
  "traverse f xs = Inr ys \<Longrightarrow> y \<in> set ys \<Longrightarrow> \<exists>x\<in>set xs. f x = Inr y"
proof (induction xs arbitrary: ys)
  case Nil
  then show ?case by simp
next
  case (Cons x xs)
  from Cons.prems obtain z zs where z: "f x = Inr z" "traverse f xs = Inr zs" "ys = z # zs"
    by (auto split: sum.splits)
  with Cons.prems have "y = z \<or> y \<in> set zs" by simp
  then show ?case
  proof
    assume "y = z"
    with z show ?thesis by simp
  next
    assume "y \<in> set zs"
    with Cons.IH z have "\<exists>x\<in>set xs. f x = Inr y" by blast
    then show ?thesis by simp
  qed
qed

lemma traverse_vals:
  assumes "traverse f xs = Inr ns"
    and "\<And>x n. x \<in> set xs \<Longrightarrow> f x = Inr n \<Longrightarrow> vals n = g x"
  shows "concat (map vals ns) = concat (map g xs)"
  using assms
proof (induction xs arbitrary: ns)
  case Nil
  then show ?case by simp
next
  case (Cons x xs)
  from Cons.prems(1) obtain z zs where z: "f x = Inr z" "traverse f xs = Inr zs" "ns = z # zs"
    by (auto split: sum.splits)
  from Cons.prems(2) [of x z] z have 1: "vals z = g x" by simp
  have "concat (map vals zs) = concat (map g xs)"
  proof (rule Cons.IH [OF z(2)])
    fix y n assume "y \<in> set xs" "f y = Inr n"
    then show "vals n = g y" using Cons.prems(2) [of y n] by simp
  qed
  with 1 z show ?case by simp
qed

lemma traverse_total:
  "(\<And>x. x \<in> set xs \<Longrightarrow> \<exists>y. f x = Inr y) \<Longrightarrow> \<exists>ys. traverse f xs = Inr ys"
proof (induction xs)
  case Nil
  show ?case by simp
next
  case (Cons x xs)
  from Cons.prems obtain y where y: "f x = Inr y" by auto
  from Cons have "\<exists>ys. traverse f xs = Inr ys" by auto
  then obtain ys where "traverse f xs = Inr ys" by blast
  with y show ?case by simp
qed

lemma opt_map_Arr:
  "opt_map f (JArr xs) = (case traverse f xs of Inl e \<Rightarrow> Inl e | Inr ns \<Rightarrow> Inr (Arr ns))"
  by (simp add: opt_map_def)

lemma opt_map_other:
  "\<not> nullish x \<Longrightarrow> \<forall>xs. x \<noteq> JArr xs \<Longrightarrow> opt_map f x = Inl TypeError"
  by (cases x) (simp_all add: opt_map_def)

lemma opt_map_nullish: "nullish x \<Longrightarrow> opt_map f x = Inr (Val JUndefined)"
  by (simp add: opt_map_def)

lemma opt_map_cases:
  assumes r: "opt_map f x = Inr n"
  obtains "nullish x" "n = Val JUndefined"
  | xs ns where "x = JArr xs" "traverse f xs = Inr ns" "n = Arr ns"
proof (cases "nullish x")
  case True
  with r have "n = Val JUndefined" by (simp add: opt_map_nullish)
  with True that(1) show ?thesis by blast
next
  case False
  have "\<exists>xs. x = JArr xs"
  proof (rule ccontr)
    assume "\<not> (\<exists>xs. x = JArr xs)"
    with False have "opt_map f x = Inl TypeError" by (simp add: opt_map_other)
    with r show False by simp
  qed
  then obtain xs where x: "x = JArr xs" by blast
  from r have r': "(case traverse f xs of Inl e \<Rightarrow> Inl e | Inr ns \<Rightarrow> Inr (Arr ns)) = Inr n"
    unfolding x opt_map_Arr .
  show ?thesis
  proof (cases "traverse f xs")
    case (Inl e)
    with r' show ?thesis by simp
  next
    case (Inr ns)
    with r' have "n = Arr ns" by simp
    with Inr x that(2) show ?thesis by blast
  qed
qed

lemma opt_map_vals:
  assumes r: "opt_map f x = Inr n"
    and f: "\<And>y m. f y = Inr m \<Longrightarrow> vals m = g y"
  shows "vals n = each_of x g"
  using r
proof (cases rule: opt_map_cases)
  case 1
  then show ?thesis by (simp add: each_of_def)
next
  case (2 xs ns)
  from 2(2) have "concat (map vals ns) = concat (map g xs)"
    by (rule traverse_vals) (rule f)
  with 2 show ?thesis by (simp add: each_of_def)
qed

lemma li_item_vals: "li_item y = Inr m \<Longrightarrow> vals m = [y]"
  by (auto simp add: li_item_def)

lemma penalty_detail_vals: "vals (penalty_detail kv) = detail_shown kv"
  by (cases kv) (simp add: penalty_detail_def detail_shown_def)

lemma penalty_type_vals:
  assumes r: "penalty_type up kv = Inr n"
  shows "vals n = penalty_shown up kv"
proof -
  obtain k p where kv: "kv = (k, p)" by (cases kv)
  show ?thesis
  proof (cases "typeof_object p")
    case False
    with r kv have "n = El ''div'' ''penalty-type''
        [El ''strong'' [] [Val (JStr (up (replace_underscore k))), Txt '':''],
         El ''span'' [] [Val p]]"
      by (simp add: penalty_type_def Let_def)
    with False kv show ?thesis by (simp add: penalty_shown_def)
  next
    case True
    with r kv have nn: "\<not> nullish p" by (auto simp add: penalty_type_def Let_def split: if_splits)
    with True r kv have "n = El ''div'' ''penalty-type''
        [El ''strong'' [] [Val (JStr (up (replace_underscore k))), Txt '':''],
         El ''ul'' [] [Arr (map penalty_detail (entries p))]]"
      by (simp add: penalty_type_def Let_def)
    then have "vals n = JStr (up (replace_underscore k))
        # concat (map (\<lambda>e. vals (penalty_detail e)) (entries p))"
      by (simp add: comp_def)
    with True kv show ?thesis by (simp add: penalty_shown_def penalty_detail_vals)
  qed
qed

lemma legal_vals:
  assumes r: "legal_explanation_content up le = Inr n"
  shows "vals n = legal_shown up le"
proof (cases "truthy le")
  case False
  with r have "n = Val le" by (simp add: legal_explanation_content_def)
  with False show ?thesis by (simp add: legal_shown_def)
next
  case True
  let ?ps = "if truthy (get_prop le ''penalties'') then get_prop le ''penalties'' else JObj []"
  obtain proofs where proofs:
    "opt_map li_item (get_prop le ''what_prosecution_must_prove'') = Inr proofs"
  proof (cases "opt_map li_item (get_prop le ''what_prosecution_must_prove'')")
    case (Inl e)
    with True r show ?thesis by (simp add: legal_explanation_content_def)
  next
    case (Inr p)
    with that show ?thesis by blast
  qed
  obtain types where types: "traverse (penalty_type up) (entries ?ps) = Inr types"
  proof (cases "traverse (penalty_type up) (entries ?ps)")
    case (Inl e)
    with True r proofs show ?thesis by (simp add: legal_explanation_content_def Let_def)
  next
    case (Inr p)
    with that show ?thesis by blast
  qed
  from True r proofs types have n: "n =
      El ''Fragment'' []
        [El ''h4'' [] [Val (get_prop le ''crime_name'')],
         El ''p'' ''simple-explanation'' [Val (get_prop le ''simple_explanation'')],
         El ''div'' ''legal-details''
           [El ''div'' ''detail-section''
              [El ''h5'' [] [Txt ''What the Prosecution Must Prove:''], El ''ul'' [] [proofs]],
            El ''div'' ''detail-section''
              [El ''h5'' [] [Txt ''Potential Penalties:''],
               El ''div'' ''penalties'' [Arr types]]]]"
    by (simp add: legal_explanation_content_def Let_def)
  have 1: "vals proofs = each_of (get_prop le ''what_prosecution_must_prove'') (\<lambda>item. [item])"
    using proofs by (rule opt_map_vals) (rule li_item_vals)
  have 2: "concat (map vals types) = concat (map (penalty_shown up) (entries ?ps))"
    using types by (rule traverse_vals) (rule penalty_type_vals)
  from n have "vals n = [get_prop le ''crime_name'', get_prop le ''simple_explanation'']
      @ vals proofs @ concat (map vals types)"
    by simp
  with 1 2 True show ?thesis by (simp add: legal_shown_def fields_of_def)
qed

lemma defense_item_vals:
  "defense_item d = Inr m \<Longrightarrow>
   vals m = fields_of d [''strategy'', ''success_rate'', ''frequency'']"
  by (auto simp add: defense_item_def fields_of_def split: if_splits)

lemma case_item_vals:
  "case_item c = Inr m \<Longrightarrow>
   vals m = fields_of c [''case_name'', ''relevance_score'', ''key_issue'', ''outcome'',
                         ''summary'', ''legal_principle'', ''citation'']"
  by (auto simp add: case_item_def case_detail_def fields_of_def split: if_splits)

lemma analytics_vals:
  assumes r: "analytics_content an = Inr n"
  shows "vals n = analytics_shown an"
proof (cases "truthy an")
  case False
  with r have "n = Val an" by (simp add: analytics_content_def)
  with False show ?thesis by (simp add: analytics_shown_def)
next
  case True
  obtain defenses where d: "opt_map defense_item (get_prop an ''common_defenses'') = Inr defenses"
  proof (cases "opt_map defense_item (get_prop an ''common_defenses'')")
    case (Inl e)
    with True r show ?thesis by (simp add: analytics_content_def)
  next
    case (Inr p)
    with that show ?thesis by blast
  qed
  have 1: "vals defenses = each_of (get_prop an ''common_defenses'')
      (\<lambda>defense. fields_of defense [''strategy'', ''success_rate'', ''frequency''])"
    using d by (rule opt_map_vals) (rule defense_item_vals)
  from True r d have "vals n =
      [opt_prop (get_prop an ''jurisdiction_stats'') ''total_cases_last_year'',
       opt_prop (get_prop an ''jurisdiction_stats'') ''conviction_rate'',
       opt_prop (get_prop an ''success_rates'') ''dismissal''] @ vals defenses"
    by (auto simp add: analytics_content_def)
  with 1 True show ?thesis by (simp add: analytics_shown_def)
qed

lemma precedents_vals:
  assumes r: "precedents_content pr = Inr n"
  shows "vals n = precedents_shown pr"
proof (cases "truthy pr")
  case False
  with r have "n = Val pr" by (simp add: precedents_content_def)
  with False show ?thesis by (simp add: precedents_shown_def)
next
  case True
  obtain cases where c: "opt_map case_item (get_prop pr ''cases'') = Inr cases"
  proof (cases "opt_map case_item (get_prop pr ''cases'')")
    case (Inl e)
    with True r show ?thesis by (simp add: precedents_content_def)
  next
    case (Inr p)
    with that show ?thesis by blast
  qed
  have 1: "vals cases = each_of (get_prop pr ''cases'')
      (\<lambda>c. fields_of c [''case_name'', ''relevance_score'', ''key_issue'', ''outcome'',
                         ''summary'', ''legal_principle'', ''citation''])"
    using c by (rule opt_map_vals) (rule case_item_vals)
  from True r c have "vals n = get_prop pr ''total_cases_found'' # vals cases"
    by (auto simp add: precedents_content_def)
  with 1 True show ?thesis by (simp add: precedents_shown_def)
qed

lemma summary_vals:
  assumes r: "summary_card su = Inr n"
  shows "vals n = summary_shown su"
proof (cases "truthy su")
  case False
  with r have "n = Val su" by (simp add: summary_card_def)
  with False show ?thesis by (simp add: summary_shown_def)
next
  case True
  obtain points where p: "opt_map li_item (get_prop su ''key_points'') = Inr points"
  proof (cases "opt_map li_item (get_prop su ''key_points'')")
    case (Inl e)
    with True r show ?thesis by (simp add: summary_card_def)
  next
    case (Inr p)
    with that show ?thesis by blast
  qed
  obtain actions where a: "opt_map li_item (get_prop su ''recommended_actions'') = Inr actions"
  proof (cases "opt_map li_item (get_prop su ''recommended_actions'')")
    case (Inl e)
    with True r p show ?thesis by (simp add: summary_card_def)
  next
    case (Inr p)
    with that show ?thesis by blast
  qed
  have 1: "vals points = each_of (get_prop su ''key_points'') (\<lambda>point. [point])"
    using p by (rule opt_map_vals) (rule li_item_vals)
  have 2: "vals actions = each_of (get_prop su ''recommended_actions'') (\<lambda>action. [action])"
    using a by (rule opt_map_vals) (rule li_item_vals)
  from True r p a have "vals n = vals points @ vals actions"
    by (auto simp add: summary_card_def)
  with 1 2 True show ?thesis by (simp add: summary_shown_def)
qed

lemma renderResults_vals:
  assumes r: "renderResults up a = Inr t"
  shows "vals t = displayed up a"
proof (cases "truthy a")
  case False
  with r have "t = El ''div'' ''results-section fade-in'' [Val a]"
    by (simp add: renderResults_def)
  with False show ?thesis by (simp add: displayed_def)
next
  case True
  obtain legal where l:
    "legal_explanation_content up (get_prop a ''legal_explanation'') = Inr legal"
  proof (cases "legal_explanation_content up (get_prop a ''legal_explanation'')")
    case (Inl e)
    with True r show ?thesis by (simp add: renderResults_def)
  next
    case (Inr p)
    with that show ?thesis by blast
  qed
  obtain analytics where an: "analytics_content (get_prop a ''analytics'') = Inr analytics"
  proof (cases "analytics_content (get_prop a ''analytics'')")
    case (Inl e)
    with True r l show ?thesis by (simp add: renderResults_def)
  next
    case (Inr p)
    with that show ?thesis by blast
  qed
  obtain precedents where pr: "precedents_content (get_prop a ''precedents'') = Inr precedents"
  proof (cases "precedents_content (get_prop a ''precedents'')")
    case (Inl e)
    with True r l an show ?thesis by (simp add: renderResults_def)
  next
    case (Inr p)
    with that show ?thesis by blast
  qed
  obtain summary where su: "summary_card (get_prop a ''summary'') = Inr summary"
  proof (cases "summary_card (get_prop a ''summary'')")
    case (Inl e)
    with True r l an pr show ?thesis by (simp add: renderResults_def)
  next
    case (Inr p)
    with that show ?thesis by blast
  qed
  from True r l an pr su have "vals t = vals legal @ vals analytics @ vals precedents
      @ vals summary"
    by (auto simp add: renderResults_def result_card_def)
  with legal_vals [OF l] analytics_vals [OF an] precedents_vals [OF pr] summary_vals [OF su] True
  show ?thesis by (simp add: displayed_def)
qed

subsection \<open>Well-shaped responses mount\<close>

lemma falsy_child_ok: "\<not> truthy v \<Longrightarrow> child_ok v"
  by (cases v) simp_all

lemma plain_child_ok: "\<not> typeof_object v \<Longrightarrow> child_ok v"
  by (cases v) simp_all

lemma texts_total: "texts_or_absent x \<Longrightarrow> \<exists>n. opt_map li_item x = Inr n"
proof (cases "nullish x")
  case True
  then show ?thesis by (simp add: opt_map_nullish)
next
  case False
  assume "texts_or_absent x"
  with False obtain xs where x: "x = JArr xs" by (cases x) simp_all
  have "\<exists>ns. traverse li_item xs = Inr ns"
    by (rule traverse_total) (simp add: li_item_def)
  then obtain ns where "traverse li_item xs = Inr ns" by blast
  with x show ?thesis by (simp add: opt_map_Arr)
qed

lemma texts_ok: "texts_or_absent x \<Longrightarrow> list_all child_ok (each_of x (\<lambda>item. [item]))"
  by (cases x) (simp_all add: each_of_def list_all_iff)

lemma records_total:
  assumes "records_or_absent ks x" and f: "\<And>y. \<not> nullish y \<Longrightarrow> \<exists>m. f y = Inr m"
  shows "\<exists>n. opt_map f x = Inr n"
proof (cases "nullish x")
  case True
  then show ?thesis by (simp add: opt_map_nullish)
next
  case False
  with assms(1) obtain xs where x: "x = JArr xs" by (cases x) simp_all
  have "\<exists>ns. traverse f xs = Inr ns"
  proof (rule traverse_total)
    fix y assume "y \<in> set xs"
    with assms(1) x have "\<not> nullish y" by (simp add: list_all_iff)
    then show "\<exists>m. f y = Inr m" by (rule f)
  qed
  then obtain ns where "traverse f xs = Inr ns" by blast
  with x show ?thesis by (simp add: opt_map_Arr)
qed

lemma records_ok:
  "records_or_absent ks x \<Longrightarrow> list_all child_ok (each_of x (\<lambda>y. fields_of y ks))"
  by (cases x) (auto simp add: each_of_def list_all_iff)

lemma penalty_total: "penalty_ok kv \<Longrightarrow> \<exists>n. penalty_type up kv = Inr n"
proof -
  assume p: "penalty_ok kv"
  obtain k v where kv: "kv = (k, v)" by (cases kv)
  with p have "v \<noteq> JNull" by (simp add: penalty_ok_def)
  then show ?thesis unfolding kv by (cases v) (simp_all add: penalty_type_def Let_def)
qed

lemma detail_ok:
  "list_all (\<lambda>e. child_ok (snd e)) es \<Longrightarrow> list_all child_ok (concat (map detail_shown es))"
  by (induction es) (auto simp add: detail_shown_def)

lemma penalty_shown_ok: "penalty_ok kv \<Longrightarrow> list_all child_ok (penalty_shown up kv)"
proof -
  assume p: "penalty_ok kv"
  obtain k v where kv: "kv = (k, v)" by (cases kv)
  show ?thesis
  proof (cases "typeof_object v")
    case True
    with p kv have "list_all (\<lambda>e. child_ok (snd e)) (entries v)" by (simp add: penalty_ok_def)
    then have "list_all child_ok (concat (map detail_shown (entries v)))" by (rule detail_ok)
    with True kv show ?thesis by (simp add: penalty_shown_def)
  next
    case False
    then have "child_ok v" by (rule plain_child_ok)
    with False kv show ?thesis by (simp add: penalty_shown_def)
  qed
qed

lemma penalties_ok:
  "list_all penalty_ok es \<Longrightarrow> list_all child_ok (concat (map (penalty_shown up) es))"
  by (induction es) (simp_all add: penalty_shown_ok)

lemma legal_total:
  assumes "truthy le \<Longrightarrow> texts_or_absent (get_prop le ''what_prosecution_must_prove'')
      \<and> list_all penalty_ok
            (entries (if truthy (get_prop le ''penalties'') then get_prop le ''penalties''
                      else JObj []))"
  shows "\<exists>n. legal_explanation_content up le = Inr n"
proof (cases "truthy le")
  case False
  then show ?thesis by (simp add: legal_explanation_content_def)
next
  case True
  let ?ps = "if truthy (get_prop le ''penalties'') then get_prop le ''penalties'' else JObj []"
  from assms True obtain proofs where
    p: "opt_map li_item (get_prop le ''what_prosecution_must_prove'') = Inr proofs"
    using texts_total by blast
  have "\<exists>ts. traverse (penalty_type up) (entries ?ps) = Inr ts"
  proof (rule traverse_total)
    fix kv assume "kv \<in> set (entries ?ps)"
    with assms True have "penalty_ok kv" by (simp add: list_all_iff)
    then show "\<exists>n. penalty_type up kv = Inr n" by (rule penalty_total)
  qed
  then obtain ts where "traverse (penalty_type up) (entries ?ps) = Inr ts" by blast
  with True p show ?thesis by (simp add: legal_explanation_content_def Let_def)
qed

lemma analytics_total:
  assumes "truthy an \<Longrightarrow>
      records_or_absent [''strategy'', ''success_rate'', ''frequency'']
        (get_prop an ''common_defenses'')"
  shows "\<exists>n. analytics_content an = Inr n"
proof (cases "truthy an")
  case False
  then show ?thesis by (simp add: analytics_content_def)
next
  case True
  with assms have "\<exists>n. opt_map defense_item (get_prop an ''common_defenses'') = Inr n"
    by (intro records_total) (simp_all add: defense_item_def)
  then obtain n where "opt_map defense_item (get_prop an ''common_defenses'') = Inr n" by blast
  with True show ?thesis by (simp add: analytics_content_def)
qed

lemma precedents_total:
  assumes "truthy pr \<Longrightarrow>
      records_or_absent [''case_name'', ''relevance_score'', ''key_issue'', ''outcome'',
                         ''summary'', ''legal_principle'', ''citation'']
        (get_prop pr ''cases'')"
  shows "\<exists>n. precedents_content pr = Inr n"
proof (cases "truthy pr")
  case False
  then show ?thesis by (simp add: precedents_content_def)
next
  case True
  with assms have "\<exists>n. opt_map case_item (get_prop pr ''cases'') = Inr n"
    by (intro records_total) (simp_all add: case_item_def)
  then obtain n where "opt_map case_item (get_prop pr ''cases'') = Inr n" by blast
  with True show ?thesis by (simp add: precedents_content_def)
qed

lemma summary_total:
  assumes "truthy su \<Longrightarrow> texts_or_absent (get_prop su ''key_points'')
      \<and> texts_or_absent (get_prop su ''recommended_actions'')"
  shows "\<exists>n. summary_card su = Inr n"
proof (cases "truthy su")
  case False
  then show ?thesis by (simp add: summary_card_def)
next
  case True
  with assms obtain ps acts where
    "opt_map li_item (get_prop su ''key_points'') = Inr ps"
    "opt_map li_item (get_prop su ''recommended_actions'') = Inr acts"
    using texts_total by blast
  with True show ?thesis by (simp add: summary_card_def)
qed

lemma renderResults_total:
  assumes w: "well_shaped a"
  shows "\<exists>t. renderResults up a = Inr t"
proof (cases "truthy a")
  case False
  then show ?thesis by (simp add: renderResults_def)
next
  case True
  with w obtain l where l: "legal_explanation_content up (get_prop a ''legal_explanation'') = Inr l"
    using legal_total [of "get_prop a ''legal_explanation''" up]
    by (auto simp add: well_shaped_def Let_def)
  from True w obtain an where an: "analytics_content (get_prop a ''analytics'') = Inr an"
    using analytics_total [of "get_prop a ''analytics''"]
    by (auto simp add: well_shaped_def Let_def)
  from True w obtain pr where pr: "precedents_content (get_prop a ''precedents'') = Inr pr"
    using precedents_total [of "get_prop a ''precedents''"]
    by (auto simp add: well_shaped_def Let_def)
  from True w obtain su where su: "summary_card (get_prop a ''summary'') = Inr su"
    using summary_total [of "get_prop a ''summary''"]
    by (auto simp add: well_shaped_def Let_def)
  from True l an pr su show ?thesis by (simp add: renderResults_def)
qed

lemma legal_shown_ok:
  assumes "truthy le \<Longrightarrow>
      list_all child_ok (fields_of le [''crime_name'', ''simple_explanation''])
      \<and> texts_or_absent (get_prop le ''what_prosecution_must_prove'')
      \<and> list_all penalty_ok
            (entries (if truthy (get_prop le ''penalties'') then get_prop le ''penalties''
                      else JObj []))"
  shows "list_all child_ok (legal_shown up le)"
proof (cases "truthy le")
  case False
  then show ?thesis by (simp add: legal_shown_def falsy_child_ok)
next
  case True
  with assms show ?thesis by (simp add: legal_shown_def texts_ok penalties_ok)
qed

lemma analytics_shown_ok:
  assumes "truthy an \<Longrightarrow>
      child_ok (opt_prop (get_prop an ''jurisdiction_stats'') ''total_cases_last_year'')
      \<and> child_ok (opt_prop (get_prop an ''jurisdiction_stats'') ''conviction_rate'')
      \<and> child_ok (opt_prop (get_prop an ''success_rates'') ''dismissal'')
      \<and> records_or_absent [''strategy'', ''success_rate'', ''frequency'']
            (get_prop an ''common_defenses'')"
  shows "list_all child_ok (analytics_shown an)"
proof (cases "truthy an")
  case False
  then show ?thesis by (simp add: analytics_shown_def falsy_child_ok)
next
  case True
  with assms show ?thesis by (simp add: analytics_shown_def records_ok)
qed

lemma precedents_shown_ok:
  assumes "truthy pr \<Longrightarrow>
      child_ok (get_prop pr ''total_cases_found'')
      \<and> records_or_absent [''case_name'', ''relevance_score'', ''key_issue'', ''outcome'',
                            ''summary'', ''legal_principle'', ''citation'']
            (get_prop pr ''cases'')"
  shows "list_all child_ok (precedents_shown pr)"
proof (cases "truthy pr")
  case False
  then show ?thesis by (simp add: precedents_shown_def falsy_child_ok)
next
  case True
  with assms show ?thesis by (simp add: precedents_shown_def records_ok)
qed

lemma summary_shown_ok:
  assumes "truthy su \<Longrightarrow> texts_or_absent (get_prop su ''key_points'')
      \<and> texts_or_absent (get_prop su ''recommended_actions'')"
  shows "list_all child_ok (summary_shown su)"
proof (cases "truthy su")
  case False
  then show ?thesis by (simp add: summary_shown_def falsy_child_ok)
next
  case True
  with assms show ?thesis by (simp add: summary_shown_def texts_ok)
qed

lemma displayed_ok:
  assumes w: "well_shaped a"
  shows "list_all child_ok (displayed up a)"
proof (cases "truthy a")
  case False
  then show ?thesis by (simp add: displayed_def falsy_child_ok)
next
  case True
  with w have 1: "list_all child_ok (legal_shown up (get_prop a ''legal_explanation''))"
    by (intro legal_shown_ok) (simp add: well_shaped_def Let_def)
  from True w have 2: "list_all child_ok (analytics_shown (get_prop a ''analytics''))"
    by (intro analytics_shown_ok) (simp add: well_shaped_def Let_def)
  from True w have 3: "list_all child_ok (precedents_shown (get_prop a ''precedents''))"
    by (intro precedents_shown_ok) (simp add: well_shaped_def Let_def)
  from True w have 4: "list_all child_ok (summary_shown (get_prop a ''summary''))"
    by (intro summary_shown_ok) (simp add: well_shaped_def Let_def)
  from True 1 2 3 4 show ?thesis by (simp add: displayed_def)
qed

lemma well_shaped_mounts:
  assumes w: "well_shaped a"
  shows "mounts (renderResults up a)"
proof -
  from renderResults_total [OF w] obtain t where t: "renderResults up a = Inr t" by blast
  from renderResults_vals [OF t] displayed_ok [OF w] have "list_all child_ok (vals t)" by simp
  with t show ?thesis by (simp add: mounts_def)
qed

text \<open>
  Claim C8, as the code has it. The results view mounts for every well-shaped response:
  it returns a tree, and every value in the tree is one that React accepts as a child.
  Whenever the view returns a tree, the values that it displays are exactly the values
  of \<open>displayed\<close>, in this order: the fields that the view reads, each as it is in the
  response or \<open>undefined\<close> when the response lacks it, and the labels of the penalties,
  which the view computes from the property names.
\<close>

theorem renderResults_displays_fields:
  "(well_shaped a \<longrightarrow> mounts (renderResults toUpperCase a))
   \<and> (renderResults toUpperCase a = Inr t \<longrightarrow> vals t = displayed toUpperCase a)"
  by (simp add: well_shaped_mounts renderResults_vals)

subsection \<open>Concrete responses\<close>

text \<open>
  What the view displays for a response with every field, the \<open>TypeError\<close> for a
  penalty that is \<open>null\<close>, and a response with an object for the name of the crime,
  which is not well shaped and does not mount.
\<close>

lemma shown_full_analysis:
  "shown (renderResults ascii_upper full_analysis) =
     Inr [JStr (lit ''DUI''), JStr (lit ''Driving while impaired''),
          JStr (lit ''Driving''), JStr (lit ''Impairment''),
          JStr (lit ''FIRST OFFENSE''),
          JStr (lit ''jail time''), JStr (lit ''up to 6 months''),
          JStr (lit ''fine''), JNum 1000,
          JStr (lit ''LICENSE''), JStr (lit ''suspended''),
          JNum 1247, JNum (366 / 5), JNum 12,
          JStr (lit ''Challenge the stop''), JNum 23, JNum 45,
          JNum 23,
          JStr (lit ''State v. Doe''), JNum 95, JStr (lit ''Stop''), JStr (lit ''Dismissed''),
          JStr (lit ''No cause''), JStr (lit ''Fourth Amendment''), JStr (lit ''123 X 456''),
          JStr (lit ''Seek counsel''), JStr (lit ''Request records'')]"
  by (simp add: shown_def renderResults_def full_analysis_def legal_explanation_content_def
      analytics_content_def precedents_content_def summary_card_def opt_map_def penalty_type_def
      penalty_detail_def result_card_def li_item_def defense_item_def case_item_def
      case_detail_def opt_prop_def ascii_upper_def lit_def Let_def)

lemma well_shaped_full_analysis: "well_shaped full_analysis"
  by (simp add: well_shaped_def full_analysis_def penalty_ok_def fields_of_def opt_prop_def
      Let_def lit_def)

lemma renderResults_null_penalty:
  "renderResults ascii_upper null_penalty_response = Inl TypeError"
  by (simp add: renderResults_def null_penalty_response_def legal_explanation_content_def
      opt_map_def penalty_type_def lit_def Let_def)

lemma object_name_not_mounted:
  "\<not> well_shaped object_name_response
   \<and> \<not> mounts (renderResults ascii_upper object_name_response)"
  by (simp add: well_shaped_def mounts_def object_name_response_def renderResults_def
      legal_explanation_content_def analytics_content_def precedents_content_def
      summary_card_def opt_map_def result_card_def fields_of_def lit_def Let_def)

theorem renderResults_displays_fields_witness:
  "well_shaped full_analysis
   \<and> mounts (renderResults ascii_upper full_analysis)
   \<and> shown (renderResults ascii_upper full_analysis) =
       Inr (displayed ascii_upper full_analysis)
   \<and> displayed ascii_upper full_analysis =
       [JStr (lit ''DUI''), JStr (lit ''Driving while impaired''),
        JStr (lit ''Driving''), JStr (lit ''Impairment''),
        JStr (lit ''FIRST OFFENSE''),
        JStr (lit ''jail time''), JStr (lit ''up to 6 months''),
        JStr (lit ''fine''), JNum 1000,
        JStr (lit ''LICENSE''), JStr (lit ''suspended''),
        JNum 1247, JNum (366 / 5), JNum 12,
        JStr (lit ''Challenge the stop''), JNum 23, JNum 45,
        JNum 23,
        JStr (lit ''State v. Doe''), JNum 95, JStr (lit ''Stop''), JStr (lit ''Dismissed''),
        JStr (lit ''No cause''), JStr (lit ''Fourth Amendment''), JStr (lit ''123 X 456''),
        JStr (lit ''Seek counsel''), JStr (lit ''Request records'')]"
proof -
  note w = well_shaped_full_analysis
  from renderResults_displays_fields [of full_analysis ascii_upper] w
  have m: "mounts (renderResults ascii_upper full_analysis)" by blast
  then obtain t where t: "renderResults ascii_upper full_analysis = Inr t"
    by (cases "renderResults ascii_upper full_analysis") (simp_all add: mounts_def)
  from renderResults_displays_fields [of full_analysis ascii_upper t] t
  have v: "vals t = displayed ascii_upper full_analysis" by blast
  with t have s: "shown (renderResults ascii_upper full_analysis) =
      Inr (displayed ascii_upper full_analysis)"
    by (simp add: shown_def)
  with shown_full_analysis have "displayed ascii_upper full_analysis =
       [JStr (lit ''DUI''), JStr (lit ''Driving while impaired''),
        JStr (lit ''Driving''), JStr (lit ''Impairment''),
        JStr (lit ''FIRST OFFENSE''),
        JStr (lit ''jail time''), JStr (lit ''up to 6 months''),
        JStr (lit ''fine''), JNum 1000,
        JStr (lit ''LICENSE''), JStr (lit ''suspended''),
        JNum 1247, JNum (366 / 5), JNum 12,
        JStr (lit ''Challenge the stop''), JNum 23, JNum 45,
        JNum 23,
        JStr (lit ''State v. Doe''), JNum 95, JStr (lit ''Stop''), JStr (lit ''Dismissed''),
        JStr (lit ''No cause''), JStr (lit ''Fourth Amendment''), JStr (lit ''123 X 456''),
        JStr (lit ''Seek counsel''), JStr (lit ''Request records'')]"
    by simp
  with w m s show ?thesis by blast
qed

lemma shown_penalty_response:
  "shown (renderResults ascii_upper penalty_response) =
     Inr [JUndefined, JUndefined, JUndefined, JStr (lit ''JAIL''), JStr (lit ''max days''),
          JStr (lit ''30''), JUndefined, JUndefined, JUndefined]"
  by (simp add: shown_def renderResults_def penalty_response_def legal_explanation_content_def
      analytics_content_def precedents_content_def summary_card_def opt_map_def penalty_type_def
      penalty_detail_def result_card_def ascii_upper_def lit_def Let_def)

lemma mounts_penalty_response: "mounts (renderResults ascii_upper penalty_response)"
  by (rule well_shaped_mounts)
    (simp add: well_shaped_def penalty_response_def penalty_ok_def fields_of_def Let_def lit_def)

text \<open>
  Claim C8, as it is stated, fails. For the response with the penalty \<open>jail\<close>, its
  detail \<open>max_days\<close> and the field \<open>note\<close>, the view mounts and displays \<open>JAIL\<close>,
  \<open>max days\<close> and \<open>30\<close> among values \<open>undefined\<close>: the property names \<open>jail\<close>
  and \<open>max_days\<close> are displayed changed, and the value \<open>x\<close> of \<open>note\<close> is not
  displayed.
\<close>

theorem renderResults_verbatim_counterexample:
  "mounts (renderResults ascii_upper penalty_response)
   \<and> shown (renderResults ascii_upper penalty_response) =
     Inr [JUndefined, JUndefined, JUndefined, JStr (lit ''JAIL''), JStr (lit ''max days''),
          JStr (lit ''30''), JUndefined, JUndefined, JUndefined]
   \<and> get_prop penalty_response ''note'' = JStr (lit ''x'')
   \<and> entries (get_prop (get_prop (get_prop penalty_response ''legal_explanation'') ''penalties'')
        ''jail'') = [(lit ''max_days'', JStr (lit ''30''))]
   \<and> lit ''max days'' \<noteq> lit ''max_days''"
proof -
  have "get_prop penalty_response ''note'' = JStr (lit ''x'')"
    by (simp add: penalty_response_def lit_def)
  moreover have "entries (get_prop (get_prop (get_prop penalty_response ''legal_explanation'')
      ''penalties'') ''jail'') = [(lit ''max_days'', JStr (lit ''30''))]"
    by (simp add: penalty_response_def lit_def)
  moreover have "lit ''max days'' \<noteq> lit ''max_days''"
    by (simp add: lit_def)
  ultimately show ?thesis using shown_penalty_response mounts_penalty_response by blast
qed

subsection \<open>The confirmation view\<close>

text \<open>
  The confirmation view mounts for a confirmation with the two lists, and throws for
  one without them.
\<close>

lemma mounts_demo_confirmation: "mounts (renderConfirmation False demo_confirmation)"
  by (simp add: mounts_def renderConfirmation_def demo_confirmation_def req_map_def
      detail_item_def li_item_def confirmation_header_def confirmation_actions_def lit_def)

lemma bare_confirmation_throws: "renderConfirmation False bare_confirmation = Inl TypeError"
  by (simp add: renderConfirmation_def bare_confirmation_def req_map_def lit_def)

lemma mounts_demo_analysis: "mounts (renderResults ascii_upper demo_analysis)"
  by (rule well_shaped_mounts)
    (simp add: well_shaped_def demo_analysis_def penalty_ok_def fields_of_def Let_def lit_def)

section \<open>Properties of the workflow\<close>

lemma inv_form_idle:
  "dash_inv ((e, d), ps) \<Longrightarrow> activeTab d = ''form'' \<Longrightarrow> \<not> loading d \<Longrightarrow> ps = []"
  by (simp add: dash_inv_def)

lemma inv_confirmation:
  "dash_inv ((e, d), ps) \<Longrightarrow> activeTab d = ''confirmation'' \<Longrightarrow> ps = [] \<and> \<not> loading d"
  by (simp add: dash_inv_def)

lemma inv_results:
  "dash_inv ((e, d), ps) \<Longrightarrow> activeTab d = ''results'' \<Longrightarrow> ps = [] \<and> \<not> loading d"
  by (simp add: dash_inv_def)

lemma inv_await_confirm:
  "dash_inv ((e, d), ps @ AwaitConfirm # qs) \<Longrightarrow> ps = [] \<and> qs = [] \<and> activeTab d = ''form''"
  by (auto simp add: dash_inv_def append_eq_Cons_conv)

lemma inv_await_analyze:
  "dash_inv ((e, d), ps @ AwaitAnalyze # qs) \<Longrightarrow>
   ps = [] \<and> qs = [] \<and> activeTab d = ''analyzing''"
  by (auto simp add: dash_inv_def append_eq_Cons_conv)

lemma tab_handleInputChange [simp]:
  "activeTab (handleInputChange name v d) = activeTab d"
  "loading (handleInputChange name v d) = loading d"
  by (simp_all add: handleInputChange_def Let_def)

lemma tab_validateForm [simp]:
  "activeTab (fst (validateForm d)) = activeTab d"
  "loading (fst (validateForm d)) = loading d"
  by (simp_all add: validateForm_def Let_def)

lemma dash_step_inv: "dash_step up c c' \<Longrightarrow> dash_inv c \<Longrightarrow> dash_inv c'"
proof (induction rule: dash_step.induct)
  case (input d e ps name v)
  then have "ps = []" by (simp add: inv_form_idle)
  with input show ?case by (simp add: dash_inv_def)
next
  case (submit_invalid d e ps)
  then have "ps = []" by (simp add: inv_form_idle)
  with submit_invalid show ?case by (simp add: dash_inv_def)
next
  case (submit_valid d e ps)
  then have "ps = []" by (simp add: inv_form_idle)
  with submit_valid show ?case by (simp add: dash_inv_def submit_request_def)
next
  case (confirm_settled c ps qs r)
  obtain e d where c: "c = (e, d)" by (cases c)
  from confirm_settled(2) have "ps = [] \<and> qs = [] \<and> activeTab d = ''form''"
    unfolding c by (rule inv_await_confirm)
  then show ?case by (cases r) (simp_all add: c dash_inv_def submit_settle_def)
next
  case (back_to_edit d e ps)
  then have "ps = []" by (simp add: inv_confirmation)
  with back_to_edit show ?case by (simp add: dash_inv_def)
next
  case (proceed d e ps)
  then have "ps = []" by (simp add: inv_confirmation)
  with proceed show ?case by (simp add: dash_inv_def analyze_request_def)
next
  case (analyze_settled c ps qs r)
  obtain e d where c: "c = (e, d)" by (cases c)
  from analyze_settled(2) have "ps = [] \<and> qs = [] \<and> activeTab d = ''analyzing''"
    unfolding c by (rule inv_await_analyze)
  then show ?case by (cases r) (simp_all add: c dash_inv_def analyze_settle_def)
next
  case (new_analysis d e ps)
  then have "ps = [] \<and> \<not> loading d" by (simp add: inv_results)
  with new_analysis show ?case by (simp add: dash_inv_def resetForm_def)
qed

lemma dash_reachable_inv: "dash_reachable up c \<Longrightarrow> dash_inv c"
proof (induction rule: dash_reachable.induct)
  case (mount e)
  show ?case by (simp add: dash_inv_def initial_dashboard_def)
next
  case (step c c')
  then show ?case by (simp add: dash_step_inv)
qed

lemma tab_of_simp [simp]: "tab_of ((e, d), ps) = activeTab d"
  by (simp add: tab_of_def)

lemma dash_inv_tab:
  "dash_inv c \<Longrightarrow> tab_of c \<in> {''form'', ''confirmation'', ''analyzing'', ''results''}"
  by (cases c) (auto simp add: dash_inv_def)

lemma dash_step_moves:
  "dash_step up c c' \<Longrightarrow> dash_inv c \<Longrightarrow> (tab_of c, tab_of c') \<in> set tab_moves"
proof (induction rule: dash_step.induct)
  case (confirm_settled c ps qs r)
  obtain e d where c: "c = (e, d)" by (cases c)
  from confirm_settled(2) have "ps = [] \<and> qs = [] \<and> activeTab d = ''form''"
    unfolding c by (rule inv_await_confirm)
  then show ?case by (cases r) (simp_all add: c tab_of_def submit_settle_def tab_moves_def)
next
  case (analyze_settled c ps qs r)
  obtain e d where c: "c = (e, d)" by (cases c)
  from analyze_settled(2) have "ps = [] \<and> qs = [] \<and> activeTab d = ''analyzing''"
    unfolding c by (rule inv_await_analyze)
  then show ?case by (cases r) (simp_all add: c tab_of_def analyze_settle_def tab_moves_def)
qed (simp_all add: tab_moves_def submit_request_def analyze_request_def resetForm_def)

subsection \<open>A run through the workflow\<close>

lemma d_filled_steps:
  "handleInputChange Jurisdiction (lit ''Texas'')
     (handleInputChange Crime_code (lit ''DUI'') initial_dashboard) = d_filled"
  by (simp add: handleInputChange_def d_filled_def initial_dashboard_def dui_form_def
      empty_form_def truthy_opt_def)

lemma d_filled_tab: "activeTab d_filled = ''form''" "\<not> loading d_filled"
  by (simp_all add: d_filled_def initial_dashboard_def)

lemma step_typing:
  "dash_step ascii_upper ((empty_env, initial_dashboard), [])
     ((empty_env, handleInputChange Crime_code (lit ''DUI'') initial_dashboard), [])"
  by (rule dash_step.input) (simp_all add: initial_dashboard_def)

lemma reach_filled: "dash_reachable ascii_upper ((empty_env, d_filled), [])"
proof -
  let ?d1 = "handleInputChange Crime_code (lit ''DUI'') initial_dashboard"
  have 0: "dash_reachable ascii_upper ((empty_env, initial_dashboard), [])"
    by (rule dash_reachable.mount)
  have 2: "dash_step ascii_upper ((empty_env, ?d1), []) ((empty_env, d_filled), [])"
    using dash_step.input [of ?d1 ascii_upper empty_env "[]" Jurisdiction "lit ''Texas''"]
    by (simp add: d_filled_steps) (simp add: initial_dashboard_def)
  from 0 step_typing 2 show ?thesis by (blast intro: dash_reachable.step)
qed

lemma step_submitted:
  "dash_step ascii_upper ((empty_env, d_filled), []) (st_submitted, [AwaitConfirm])"
  using dash_step.submit_valid [of d_filled ascii_upper empty_env "[]"]
  by (simp add: d_filled_valid d_filled_tab st_submitted_def)

lemma reach_submitted: "dash_reachable ascii_upper (st_submitted, [AwaitConfirm])"
  using reach_filled step_submitted by (rule dash_reachable.step)

lemma st_submitted_facts:
  "activeTab (snd st_submitted) = ''form''" "loading (snd st_submitted)"
  by (simp_all add: st_submitted_def submit_request_def d_filled_def initial_dashboard_def)

lemma st_submitted_renders: "page_renders ascii_upper (snd st_submitted)"
  by (simp add: page_renders_def st_submitted_facts)

lemma step_confirmation:
  "dash_step ascii_upper (st_submitted, [AwaitConfirm]) (st_confirmation, [])"
  using dash_step.confirm_settled [of ascii_upper st_submitted "[]" "[]" "Inr demo_confirmation"]
  by (simp add: st_confirmation_def st_submitted_renders)

lemma reach_confirmation: "dash_reachable ascii_upper (st_confirmation, [])"
  using reach_submitted step_confirmation by (rule dash_reachable.step)

lemma st_confirmation_state:
  "snd st_confirmation =
     (snd st_submitted)\<lparr>confirmation := demo_confirmation, activeTab := ''confirmation'',
                         loading := False\<rparr>"
  by (simp add: st_confirmation_def submit_settle_def case_prod_beta)

lemma truthy_demo_confirmation: "truthy demo_confirmation"
  by (simp add: demo_confirmation_def)

lemma st_confirmation_facts:
  "activeTab (snd st_confirmation) = ''confirmation''"
  "truthy (confirmation (snd st_confirmation))"
  "\<not> loading (snd st_confirmation)"
  "confirmation (snd st_confirmation) = demo_confirmation"
  by (simp_all add: st_confirmation_state truthy_demo_confirmation)

lemma st_confirmation_renders: "page_renders ascii_upper (snd st_confirmation)"
  by (simp add: page_renders_def st_confirmation_facts mounts_demo_confirmation)

lemma step_back_to_edit:
  "dash_step ascii_upper (st_confirmation, [])
     ((fst st_confirmation, (snd st_confirmation)\<lparr>activeTab := ''form''\<rparr>), [])"
  using dash_step.back_to_edit [of "snd st_confirmation" ascii_upper "fst st_confirmation" "[]"]
  by (simp add: st_confirmation_facts st_confirmation_renders truthy_demo_confirmation)

lemma step_analyzing:
  "dash_step ascii_upper (st_confirmation, []) (st_analyzing, [AwaitAnalyze])"
  using dash_step.proceed [of "snd st_confirmation" ascii_upper "fst st_confirmation" "[]"]
  by (simp add: st_confirmation_facts st_confirmation_renders st_analyzing_def
      truthy_demo_confirmation)

lemma reach_analyzing: "dash_reachable ascii_upper (st_analyzing, [AwaitAnalyze])"
  using reach_confirmation step_analyzing by (rule dash_reachable.step)

lemma st_analyzing_facts: "activeTab (snd st_analyzing) = ''analyzing''"
  by (simp add: st_analyzing_def analyze_request_def split: prod.splits)

lemma st_analyzing_renders: "page_renders ascii_upper (snd st_analyzing)"
  by (simp add: page_renders_def st_analyzing_facts)

lemma step_results: "dash_step ascii_upper (st_analyzing, [AwaitAnalyze]) (st_results, [])"
  using dash_step.analyze_settled [of ascii_upper st_analyzing "[]" "[]" "Inr demo_analysis"]
  by (simp add: st_results_def st_analyzing_renders)

lemma step_analysis_failed:
  "dash_step ascii_upper (st_analyzing, [AwaitAnalyze])
     (analyze_settle (Inl \<lparr>data_error = None, data_message = None\<rparr>) st_analyzing, [])"
  using dash_step.analyze_settled [of ascii_upper st_analyzing "[]" "[]"
      "Inl \<lparr>data_error = None, data_message = None\<rparr>"]
  by (simp add: st_analyzing_renders)

lemma reach_results: "dash_reachable ascii_upper (st_results, [])"
  using reach_analyzing step_results by (rule dash_reachable.step)

lemma st_results_state:
  "snd st_results =
     (snd st_analyzing)\<lparr>analysis := demo_analysis, activeTab := ''results'', loading := False\<rparr>"
  by (simp add: st_results_def analyze_settle_def case_prod_beta)

lemma truthy_demo_analysis: "truthy demo_analysis"
  by (simp add: demo_analysis_def)

lemma st_results_facts:
  "activeTab (snd st_results) = ''results''" "truthy (analysis (snd st_results))"
  "analysis (snd st_results) = demo_analysis"
  by (simp_all add: st_results_state truthy_demo_analysis)

lemma st_results_renders: "page_renders ascii_upper (snd st_results)"
  by (simp add: page_renders_def st_results_facts mounts_demo_analysis)

lemma step_reset:
  "dash_step ascii_upper (st_results, []) ((fst st_results, resetForm (snd st_results)), [])"
  using dash_step.new_analysis [of "snd st_results" ascii_upper "fst st_results" "[]"]
  by (simp add: st_results_facts st_results_renders truthy_demo_analysis)

lemma st_tabs:
  "tab_of (st_submitted, ps) = ''form''" "tab_of (st_confirmation, ps) = ''confirmation''"
  "tab_of (st_analyzing, ps) = ''analyzing''" "tab_of (st_results, ps) = ''results''"
  by (simp_all add: tab_of_def st_submitted_facts st_confirmation_facts st_analyzing_facts
      st_results_facts)

lemma realise:
  "dash_reachable up c \<Longrightarrow> dash_step up c c' \<Longrightarrow> tab_of c = a \<Longrightarrow> tab_of c' = b \<Longrightarrow>
   \<exists>c c'. dash_reachable up c \<and> dash_step up c c' \<and> (tab_of c, tab_of c') = (a, b)"
  by blast

lemma tab_moves_realised:
  "\<forall>m\<in>set tab_moves.
     \<exists>c c'. dash_reachable ascii_upper c \<and> dash_step ascii_upper c c' \<and> (tab_of c, tab_of c') = m"
proof -
  have 1: "\<exists>c c'. dash_reachable ascii_upper c \<and> dash_step ascii_upper c c'
      \<and> (tab_of c, tab_of c') = (''form'', ''form'')"
    by (rule realise [OF dash_reachable.mount [of ascii_upper empty_env] step_typing])
      (simp_all add: initial_dashboard_def)
  have 2: "\<exists>c c'. dash_reachable ascii_upper c \<and> dash_step ascii_upper c c'
      \<and> (tab_of c, tab_of c') = (''form'', ''confirmation'')"
    by (rule realise [OF reach_submitted step_confirmation]) (simp_all add: st_tabs)
  have 3: "\<exists>c c'. dash_reachable ascii_upper c \<and> dash_step ascii_upper c c'
      \<and> (tab_of c, tab_of c') = (''confirmation'', ''form'')"
    by (rule realise [OF reach_confirmation step_back_to_edit]) (simp_all add: st_tabs)
  have 4: "\<exists>c c'. dash_reachable ascii_upper c \<and> dash_step ascii_upper c c'
      \<and> (tab_of c, tab_of c') = (''confirmation'', ''analyzing'')"
    by (rule realise [OF reach_confirmation step_analyzing]) (simp_all add: st_tabs)
  have 5: "\<exists>c c'. dash_reachable ascii_upper c \<and> dash_step ascii_upper c c'
      \<and> (tab_of c, tab_of c') = (''analyzing'', ''results'')"
    by (rule realise [OF reach_analyzing step_results]) (simp_all add: st_tabs)
  have 6: "\<exists>c c'. dash_reachable ascii_upper c \<and> dash_step ascii_upper c c'
      \<and> (tab_of c, tab_of c') = (''analyzing'', ''confirmation'')"
  proof (rule realise [OF reach_analyzing step_analysis_failed])
    show "tab_of (st_analyzing, [AwaitAnalyze]) = ''analyzing''" by (simp add: st_tabs)
    show "tab_of (analyze_settle (Inl \<lparr>data_error = None, data_message = None\<rparr>) st_analyzing, [])
        = ''confirmation''"
      by (simp add: tab_of_def analyze_settle_def split: prod.splits)
  qed
  have 7: "\<exists>c c'. dash_reachable ascii_upper c \<and> dash_step ascii_upper c c'
      \<and> (tab_of c, tab_of c') = (''results'', ''form'')"
    by (rule realise [OF reach_results step_reset]) (simp_all add: st_tabs resetForm_def)
  from 1 2 3 4 5 6 7 show ?thesis by (simp add: tab_moves_def)
qed

subsection \<open>The moves of \<open>activeTab\<close>\<close>

text \<open>
  Claim C2, as the code has it. \<open>activeTab\<close> starts at \<open>form\<close> and has one of the four
  values \<open>form\<close>, \<open>confirmation\<close>, \<open>analyzing\<close>, \<open>results\<close> in every reachable state.
  A step either keeps the tab, or moves forward from \<open>form\<close> to \<open>confirmation\<close>, from
  \<open>confirmation\<close> to \<open>analyzing\<close> or from \<open>analyzing\<close> to \<open>results\<close>, or moves back:
  from \<open>analyzing\<close> to \<open>confirmation\<close> (the analysis failed), from \<open>confirmation\<close> to
  \<open>form\<close> (Back to Edit) or from \<open>results\<close> to \<open>form\<close> (\<open>resetForm\<close>).
  By \<open>tab_moves_realised\<close>, each of these moves occurs in a run in which every view
  mounts.
\<close>

theorem activeTab_moves:
  "activeTab initial_dashboard = ''form''
   \<and> (dash_reachable toUpperCase c \<longrightarrow>
        tab_of c \<in> {''form'', ''confirmation'', ''analyzing'', ''results''})
   \<and> (dash_reachable toUpperCase c \<and> dash_step toUpperCase c c' \<longrightarrow>
        (tab_of c, tab_of c') \<in> set tab_moves)"
proof (intro conjI impI)
  show "activeTab initial_dashboard = ''form''" by (simp add: initial_dashboard_def)
next
  assume "dash_reachable toUpperCase c"
  then show "tab_of c \<in> {''form'', ''confirmation'', ''analyzing'', ''results''}"
    by (intro dash_inv_tab dash_reachable_inv)
next
  assume "dash_reachable toUpperCase c \<and> dash_step toUpperCase c c'"
  then show "(tab_of c, tab_of c') \<in> set tab_moves"
    by (blast intro: dash_step_moves dash_reachable_inv)
qed

theorem activeTab_moves_witness:
  "dash_reachable ascii_upper (st_analyzing, [AwaitAnalyze])
   \<and> dash_step ascii_upper (st_analyzing, [AwaitAnalyze]) (st_results, [])
   \<and> (tab_of (st_analyzing, [AwaitAnalyze]), tab_of (st_results, [])) \<in> set tab_moves
   \<and> tab_of (st_results, []) = ''results''"
proof -
  have "(tab_of (st_analyzing, [AwaitAnalyze]), tab_of (st_results, [])) \<in> set tab_moves"
    using activeTab_moves [of ascii_upper "(st_analyzing, [AwaitAnalyze])" "(st_results, [])"]
      reach_analyzing step_results by blast
  moreover have "tab_of (st_results, []) = ''results''"
    by (simp add: st_tabs)
  ultimately show ?thesis using reach_analyzing step_results by blast
qed

text \<open>
  Claim C2, as it is stated, fails: in the reachable state that shows the results, with
  the results view mounted, New Analysis is a step, and it takes \<open>activeTab\<close> from
  \<open>results\<close> back to \<open>form\<close>.
\<close>

theorem activeTab_backward_counterexample:
  "dash_reachable ascii_upper (st_results, [])
   \<and> page_renders ascii_upper (snd st_results)
   \<and> dash_step ascii_upper (st_results, []) ((fst st_results, resetForm (snd st_results)), [])
   \<and> tab_of (st_results, []) = ''results''
   \<and> tab_of ((fst st_results, resetForm (snd st_results)), []) = ''form''
   \<and> tab_rank ''form'' < tab_rank ''results''"
proof -
  have "tab_of (st_results, []) = ''results''"
    by (simp add: st_tabs)
  moreover have "tab_of ((fst st_results, resetForm (snd st_results)), []) = ''form''"
    by (simp add: resetForm_def)
  moreover have "tab_rank ''form'' < tab_rank ''results''"
    by (simp add: tab_rank_def)
  ultimately show ?thesis using reach_results step_reset st_results_renders by blast
qed

subsection \<open>\<open>resetForm\<close>\<close>

text \<open>
  Claim C9, as the code has it. In every state, \<open>resetForm\<close> leaves the three form
  fields empty, \<open>confirmation\<close> and \<open>analysis\<close> null, no field errors and \<open>activeTab\<close>
  at \<open>form\<close>, and applying it twice is applying it once. It does not touch \<open>loading\<close>:
  its result is the initial state with the \<open>loading\<close> of the state it is applied to.
  In every reachable state that shows the results, the only tab with the button that
  calls \<open>resetForm\<close>, \<open>loading\<close> is false and the result is exactly the initial state.
\<close>

theorem resetForm_initial:
  "formData (resetForm d) = empty_form \<and> confirmation (resetForm d) = JNull
   \<and> analysis (resetForm d) = JNull \<and> errors (resetForm d) = []
   \<and> activeTab (resetForm d) = ''form''
   \<and> resetForm (resetForm d) = resetForm d
   \<and> resetForm d = initial_dashboard\<lparr>loading := loading d\<rparr>
   \<and> (dash_reachable toUpperCase ((e, d), ps) \<and> activeTab d = ''results'' \<longrightarrow>
        resetForm d = initial_dashboard)"
proof -
  have fields: "formData (resetForm d) = empty_form \<and> confirmation (resetForm d) = JNull
      \<and> analysis (resetForm d) = JNull \<and> errors (resetForm d) = []
      \<and> activeTab (resetForm d) = ''form''"
    by (simp add: resetForm_def)
  have idem: "resetForm (resetForm d) = resetForm d"
    by (simp add: resetForm_def)
  have eq: "resetForm d = initial_dashboard\<lparr>loading := loading d\<rparr>"
    by (simp add: resetForm_def initial_dashboard_def)
  have "resetForm d = initial_dashboard"
    if "dash_reachable toUpperCase ((e, d), ps) \<and> activeTab d = ''results''"
  proof -
    from that have "\<not> loading d" using dash_reachable_inv inv_results by blast
    then have "initial_dashboard\<lparr>loading := loading d\<rparr> = initial_dashboard"
      by (simp add: initial_dashboard_def)
    with eq show ?thesis by simp
  qed
  with fields idem eq show ?thesis by blast
qed

theorem resetForm_initial_witness:
  "dash_reachable ascii_upper ((fst st_results, snd st_results), [])
   \<and> activeTab (snd st_results) = ''results''
   \<and> resetForm (snd st_results) = initial_dashboard"
proof -
  have r: "dash_reachable ascii_upper ((fst st_results, snd st_results), [])"
    using reach_results by simp
  have t: "activeTab (snd st_results) = ''results''"
    by (simp add: st_results_facts)
  from r t resetForm_initial [of "snd st_results" ascii_upper "fst st_results" "[]"]
  show ?thesis by blast
qed

text \<open>
  Claim C9, as it is stated, fails: in the reachable state in which the form has been
  submitted and the request to \<open>/legal/confirm\<close> is pending, \<open>loading\<close> is true, and
  \<open>resetForm\<close> applied to that state yields neither the initial state nor what it yields
  for the initial state.
\<close>

theorem resetForm_keeps_loading_counterexample:
  "dash_reachable ascii_upper (st_submitted, [AwaitConfirm])
   \<and> loading (snd st_submitted)
   \<and> \<not> loading initial_dashboard
   \<and> resetForm (snd st_submitted) \<noteq> initial_dashboard
   \<and> resetForm (snd st_submitted) \<noteq> resetForm initial_dashboard"
proof -
  have l: "loading (snd st_submitted)" by (simp add: st_submitted_facts)
  have i: "\<not> loading initial_dashboard" by (simp add: initial_dashboard_def)
  have k: "loading (resetForm d) = loading d" for d by (simp add: resetForm_def)
  from l i k have "resetForm (snd st_submitted) \<noteq> initial_dashboard" by metis
  moreover from l i k have "resetForm (snd st_submitted) \<noteq> resetForm initial_dashboard"
    by metis
  ultimately show ?thesis using reach_submitted l i by blast
qed

end
